theory Spec2Isabelle
  imports Complex_Main "HOL-Library.Char_ord" "HOL-Library.List_Lexorder"
    "HOL-Library.Product_Lexorder"
begin

text \<open>
  A shallow embedding of the analysis script \<open>inspect_results.py\<close> of
  \<open>cat_learn_auto_pace_2025_s2\<close> (loading and routing of the data files, the training
  table, the exclusion steps, the selection of the best decision-bound model) and of the
  session set-up and trial loop of \<open>run_exp.py\<close> of \<open>cat_learn_auto_pace_2026_s1\<close>. Tables
  are lists of records in row order, Python exceptions are the left summand of a sum type,
  and line numbers refer to the two scripts. The definitions come first, the proofs
  follow.
\<close>

section \<open>Common values\<close>

text \<open>
  The Python exceptions the modelled code can raise. \<open>os.listdir\<close>, the plotting calls and
  the CSV parser are outside the model.
\<close>

datatype py_error = IndexError | ValueError | NameError | KeyError | SystemExit

text \<open>
  A float column entry: a finite number or NaN. Only the order and the equality of the
  values are used below; rounding is not modelled.
\<close>

datatype num = Num real | NaN

text \<open>\<open>a == b\<close> on floats: NaN is equal to nothing, itself included.\<close>

fun num_eq :: "num \<Rightarrow> num \<Rightarrow> bool" where
  "num_eq (Num a) (Num b) = (a = b)"
| "num_eq _ _ = False"

section \<open>inspect\_results.py: the decision-bound model table\<close>

subsection \<open>The model lists of the call site (lines 276--294)\<close>

text \<open>
  The three objective functions come from \<open>util_func_dbm\<close>, which is not part of the
  inspected sources; only their identity matters at the call site.
\<close>

datatype nll_fun = nll_unix | nll_uniy | nll_glc

definition models :: "nll_fun list" where
  "models = [nll_unix, nll_unix, nll_uniy, nll_uniy, nll_glc, nll_glc]"

definition side :: "int list" where
  "side = [0, 1, 0, 1, 0, 1, 0, 1, 2, 3]"

definition k :: "nat list" where
  "k = [2, 2, 2, 2, 3, 3, 3, 3, 3, 3]"

definition block_size :: nat where
  "block_size = 25"

definition n :: nat where
  "n = block_size"

definition model_names :: "string list" where
  "model_names =
     [''nll_unix_0'', ''nll_unix_1'', ''nll_uniy_0'', ''nll_uniy_1'', ''nll_glc_0'', ''nll_glc_1'']"

subsection \<open>The fit-result table and the selector (lines 304--323)\<close>

text \<open>One row of \<open>dbm\<close> after the column selection of line 302.\<close>

record fit_result =
  fr_subject :: int
  fr_day :: int
  fr_model :: string
  fr_bic :: num
  fr_p :: string

text \<open>One row of the final \<open>dbm\<close> (lines 315--323).\<close>

record assignment =
  a_subject :: int
  a_day :: int
  a_bic :: num
  a_best_model :: string
  a_best_model_class :: string

text \<open>
  \<open>ndarray.min()\<close>: raises on an empty array, propagates NaN, otherwise the least value.
\<close>

fun finite_vals :: "num list \<Rightarrow> real list option" where
  "finite_vals [] = Some []"
| "finite_vals (NaN # bs) = None"
| "finite_vals (Num x # bs) = map_option ((#) x) (finite_vals bs)"

definition np_min :: "num list \<Rightarrow> py_error + num" where
  "np_min bs =
     (case finite_vals bs of
        None \<Rightarrow> Inr NaN
      | Some [] \<Rightarrow> Inl ValueError
      | Some (v # vs) \<Rightarrow> Inr (Num (fold min vs v)))"

text \<open>\<open>np.unique\<close>: the sorted distinct values.\<close>

definition np_unique :: "string list \<Rightarrow> string list" where
  "np_unique xs = remdups_adj (sort xs)"

text \<open>
  \<open>assign_best_model\<close> (lines 304--309). The boolean mask \<open>bic == bic.min()\<close> selects the
  model names, \<open>np.unique(...)[0]\<close> raises IndexError when the mask selects nothing, and
  every row of the group gets the column \<open>best_model\<close>.
\<close>

definition assign_best_model :: "fit_result list \<Rightarrow> py_error + (fit_result \<times> string) list" where
  "assign_best_model x =
     (let model = map fr_model x;
          bic = map fr_bic x
      in case np_min bic of
           Inl e \<Rightarrow> Inl e
         | Inr m \<Rightarrow>
             (case np_unique (map fst (filter (\<lambda>(mo, b). num_eq b m) (zip model bic))) of
                [] \<Rightarrow> Inl IndexError
              | best_model # _ \<Rightarrow> Inr (map (\<lambda>r. (r, best_model)) x)))"

text \<open>
  \<open>groupby(["subject", "day"])\<close>: the groups in increasing key order, each with its rows
  in table order.
\<close>

definition fr_key :: "fit_result \<Rightarrow> int \<times> int" where
  "fr_key r = (fr_subject r, fr_day r)"

definition group_keys :: "fit_result list \<Rightarrow> (int \<times> int) list" where
  "group_keys dbm = sort (remdups (map fr_key dbm))"

definition groupby :: "fit_result list \<Rightarrow> ((int \<times> int) \<times> fit_result list) list" where
  "groupby dbm = map (\<lambda>key. (key, filter (\<lambda>r. fr_key r = key) dbm)) (group_keys dbm)"

text \<open>\<open>apply\<close>: the first group that raises aborts the whole call.\<close>

fun collect :: "('e + 'a) list \<Rightarrow> 'e + 'a list" where
  "collect [] = Inr []"
| "collect (Inl e # rs) = Inl e"
| "collect (Inr v # rs) = (case collect rs of Inl e \<Rightarrow> Inl e | Inr vs \<Rightarrow> Inr (v # vs))"

text \<open>\<open>drop_duplicates\<close> keeps the first occurrence of every row.\<close>

fun drop_duplicates :: "'a list \<Rightarrow> 'a list" where
  "drop_duplicates [] = []"
| "drop_duplicates (x # xs) = x # drop_duplicates (filter (\<lambda>y. y \<noteq> x) xs)"

text \<open>\<open>str.split(sep)\<close> and the pandas accessor \<open>.str[i]\<close>, which gives NaN out of range.\<close>

fun split_on :: "char \<Rightarrow> string \<Rightarrow> string list" where
  "split_on c [] = [[]]"
| "split_on c (x # xs) =
     (if x = c then [] # split_on c xs
      else (case split_on c xs of [] \<Rightarrow> [[x]] | w # ws \<Rightarrow> (x # w) # ws))"

definition str_get :: "string list \<Rightarrow> nat \<Rightarrow> string option" where
  "str_get ws i = (if i < length ws then Some (ws ! i) else None)"

text \<open>
  Lines 317--321: the second field of the name, then the two \<open>.loc\<close> assignments in
  their order. NaN differs from \<open>"glc"\<close>, so a name without a second field is rule-based.
\<close>

definition best_model_class :: "string \<Rightarrow> string" where
  "best_model_class best_model =
     (let c0 = str_get (split_on CHR ''_'' best_model) 1;
          c1 = (case c0 of None \<Rightarrow> ''rule-based''
                | Some s \<Rightarrow> if s \<noteq> ''glc'' then ''rule-based'' else s);
          c2 = (if c1 = ''glc'' then ''procedural'' else c1)
      in c2)"

text \<open>
  Lines 311--323, on the table \<open>dbm\<close> of either branch of line 296. On a table without
  rows \<open>apply\<close> calls \<open>assign_best_model\<close> for no group, so the column \<open>best_model\<close> is
  never created and line 314 raises KeyError.
\<close>

definition select_rows :: "(fit_result \<times> string) list \<Rightarrow> (int \<times> int \<times> num \<times> string) list" where
  "select_rows rows =
     map (\<lambda>(r, b). (fr_subject r, fr_day r, fr_bic r, b))
       (filter (\<lambda>(r, b). fr_model r = b) rows)"

definition mk_assignment :: "int \<times> int \<times> num \<times> string \<Rightarrow> assignment" where
  "mk_assignment row =
     (case row of (s, d, b, m) \<Rightarrow>
        \<lparr>a_subject = s, a_day = d, a_bic = b, a_best_model = m,
         a_best_model_class = best_model_class m\<rparr>)"

definition best_model_table :: "fit_result list \<Rightarrow> py_error + assignment list" where
  "best_model_table dbm =
     (case collect (map (\<lambda>(key, x). assign_best_model x) (groupby dbm)) of
        Inl e \<Rightarrow> Inl e
      | Inr gs \<Rightarrow>
          if dbm = [] then Inl KeyError
          else Inr (map mk_assignment (drop_duplicates (select_rows (concat gs)))))"

text \<open>The family behind a model name: the entry of \<open>models\<close> at the name's position.\<close>

definition family_of :: "string \<Rightarrow> nll_fun option" where
  "family_of name = map_of (zip model_names models) name"

section \<open>inspect\_results.py: loading and the training table\<close>

subsection \<open>The at-home files (lines 69--177)\<close>

text \<open>One row of a raw CSV file, with the columns the modelled lines read.\<close>

record raw_row =
  r_subject :: int
  r_day :: int
  r_trial :: int
  r_cat :: string
  r_resp :: string
  r_ns_correct_side :: "string option"
  r_ns_resp :: "string option"

text \<open>
  A data frame read from a file, with the file name that line 111 stores in the column
  \<open>f_name\<close>.
\<close>

record csv_file =
  fs :: string
  rows :: "raw_row list"

definition day_exclusion_list :: "string list" where
  "day_exclusion_list =
     [''sub_002_day_23_data.csv'', ''sub_008_day_18_data.csv'', ''sub_008_day_19_data.csv'',
      ''sub_008_day_20_data.csv'', ''sub_008_day_21_data.csv'', ''sub_008_day_22_data.csv'',
      ''sub_008_day_23_data.csv'', ''sub_008_day_24_data.csv'', ''sub_015_day_22_data.csv'',
      ''sub_015_day_23_data.csv'', ''sub_015_day_24_data.csv'', ''sub_019_day_13_data.csv'',
      ''sub_019_day_18_data.csv'', ''sub_019_day_22_data.csv'', ''sub_019_day_23_data.csv'',
      ''sub_019_day_24_data.csv'']"

definition set_day :: "int \<Rightarrow> raw_row list \<Rightarrow> raw_row list" where
  "set_day v df = map (\<lambda>r. r\<lparr>r_day := v\<rparr>) df"

definition set_subject :: "int \<Rightarrow> raw_row list \<Rightarrow> raw_row list" where
  "set_subject v df = map (\<lambda>r. r\<lparr>r_subject := v\<rparr>) df"

text \<open>The per-file corrections of lines 113--163, in their order.\<close>

definition corrections :: "string \<Rightarrow> raw_row list \<Rightarrow> raw_row list" where
  "corrections f df0 =
     (let df1 = (if f = ''sub_003_day_19_data.csv'' then set_day 19 df0
                 else if f = ''sub_003_day_20_data.csv'' then set_day 20 df0 else df0);
          df2 = (if f = ''sub_006_day_22_data.csv'' then set_subject 6 df1
                 else if f = ''sub_006_day_23_data.csv'' then set_subject 6 df1
                 else if f = ''sub_006_day_24_data.csv'' then set_subject 6 df1 else df1);
          df3 = (if f = ''sub_015_day_01_data.csv'' then set_subject 15 df2 else df2);
          df4 = (if f = ''sub_016_day_22_data.csv'' then set_subject 16 df3 else df3);
          df5 = (if f = ''sub_017_day_17_data.csv'' then set_subject 17 df4 else df4);
          df6 = (if f = ''sub_019_day_01_data.csv'' then set_subject 19 df5 else df5);
          df7 = (if f = ''sub_019_day_24_data.csv'' then set_day 24 df6 else df6)
      in df7)"

text \<open>
  The truth value of a boolean array in an \<open>if\<close>: the element of a one-element array,
  ValueError for more than one element. An empty array is taken as false, as NumPy
  before 2.2 does (later versions raise); the file then joins no list.
\<close>

definition truth :: "bool list \<Rightarrow> py_error + bool" where
  "truth bs = (case bs of [] \<Rightarrow> Inr False | [b] \<Rightarrow> Inr b | _ # _ # _ \<Rightarrow> Inl ValueError)"

text \<open>\<open>day in [23, 24]\<close>: each list element is compared with the array in turn.\<close>

fun py_in :: "int list \<Rightarrow> int list \<Rightarrow> py_error + bool" where
  "py_in day [] = Inr False"
| "py_in day (e # es) =
     (case truth (map (\<lambda>d. e = d) day) of
        Inl err \<Rightarrow> Inl err
      | Inr b \<Rightarrow> if b then Inr True else py_in day es)"

record recs =
  df_train_rec :: "csv_file list"
  df_dt_rec :: "csv_file list"
  df_bs_rec :: "csv_file list"

text \<open>\<open>df['day'].unique()\<close>: the distinct values (their order plays no role below).\<close>

definition day_unique :: "raw_row list \<Rightarrow> int list" where
  "day_unique df = remdups (map r_day df)"

text \<open>The body of the inner loop (lines 91--177) for one file.\<close>

definition route :: "recs \<Rightarrow> csv_file \<Rightarrow> py_error + recs" where
  "route rec f =
     (if fs f \<in> set day_exclusion_list then Inr rec
      else
        let df = \<lparr>fs = fs f, rows = corrections (fs f) (rows f)\<rparr>;
            day = day_unique (rows df)
        in case truth (map (\<lambda>d. d \<notin> set [22, 23, 24]) day) of
             Inl e \<Rightarrow> Inl e
           | Inr b1 \<Rightarrow>
               (let rec1 = (if b1 then rec\<lparr>df_train_rec := df_train_rec rec @ [df]\<rparr> else rec)
                in case truth (map (\<lambda>d. d = 22) day) of
                     Inl e \<Rightarrow> Inl e
                   | Inr b2 \<Rightarrow>
                       (let rec2 = (if b2 then rec1\<lparr>df_dt_rec := df_dt_rec rec1 @ [df]\<rparr> else rec1)
                        in case py_in day [23, 24] of
                             Inl e \<Rightarrow> Inl e
                           | Inr b3 \<Rightarrow>
                               Inr (if b3 then rec2\<lparr>df_bs_rec := df_bs_rec rec2 @ [df]\<rparr>
                                    else rec2))))"

fun load_files :: "recs \<Rightarrow> csv_file list \<Rightarrow> py_error + recs" where
  "load_files rec [] = Inr rec"
| "load_files rec (f # files) =
     (case route rec f of Inl e \<Rightarrow> Inl e | Inr rec' \<Rightarrow> load_files rec' files)"

definition empty_recs :: recs where
  "empty_recs = \<lparr>df_train_rec = [], df_dt_rec = [], df_bs_rec = []\<rparr>"

text \<open>The lab files (lines 179--196); their two day corrections do not touch the subject.\<close>

definition lab_corrections :: "string \<Rightarrow> raw_row list \<Rightarrow> raw_row list" where
  "lab_corrections fd df0 =
     (let df1 = (if fd = ''sub_003_day_401_data.csv'' then set_day 403 df0 else df0);
          df2 = (if fd = ''sub_015_day_15_data.csv'' then set_day 215 df1 else df1)
      in df2)"

definition load_lab :: "csv_file list \<Rightarrow> csv_file list" where
  "load_lab files =
     map (\<lambda>f. \<lparr>fs = fs f, rows = lab_corrections (fs f) (rows f)\<rparr>)
       (filter (\<lambda>f. fs f \<noteq> ''.DS_Store'') files)"

subsection \<open>The training table \<open>d\<close> (lines 198--208)\<close>

text \<open>
  One row of \<open>d\<close>: the columns that lines 200--208 compute or that the statements below
  read. The remaining columns of the files pass through these lines unchanged.
\<close>

record trial_row =
  t_subject :: int
  t_day :: int
  t_trial :: int
  t_cat :: string
  t_resp :: string
  t_f_name :: string
  t_acc :: int
  t_n_trials :: int
  t_block :: int
  t_session_type :: string

text \<open>\<open>pd.concat\<close> raises on an empty list of frames.\<close>

definition pd_concat :: "csv_file list \<Rightarrow> py_error + (string \<times> raw_row) list" where
  "pd_concat dfs =
     (if dfs = [] then Inl ValueError
      else Inr (concat (map (\<lambda>df. map (\<lambda>r. (fs df, r)) (rows df)) dfs)))"

text \<open>
  \<open>sort_values(by=['subject', 'day', 'trial'])\<close>; rows with equal keys keep their order.
\<close>

definition sort_values :: "(string \<times> raw_row) list \<Rightarrow> (string \<times> raw_row) list" where
  "sort_values d = sort_key (\<lambda>(f, r). (r_subject r, r_day r, r_trial r)) d"

text \<open>
  \<open>groupby('subject')['day'].rank(method='dense')\<close>: one plus the number of distinct
  smaller day values of the same subject.
\<close>

definition rank_dense :: "(int \<times> int) list \<Rightarrow> int \<Rightarrow> int \<Rightarrow> int" where
  "rank_dense sd s dy =
     1 + int (length (remdups (map snd (filter (\<lambda>(s', d'). s' = s \<and> d' < dy) sd))))"

text \<open>
  \<open>groupby(keys).cumcount()\<close>: the number of earlier rows of the table with the same key.
\<close>

definition cumcount :: "'a list \<Rightarrow> nat list" where
  "cumcount ks = map (\<lambda>i. length (filter (\<lambda>key. key = ks ! i) (take i ks))) [0..<length ks]"

text \<open>\<open>groupby(keys)[col].transform('count')\<close>: the size of the row's group.\<close>

definition group_count :: "'a list \<Rightarrow> nat list" where
  "group_count ks = map (\<lambda>key. length (filter (\<lambda>key'. key' = key) ks)) ks"

definition training_table :: "csv_file list \<Rightarrow> py_error + trial_row list" where
  "training_table train_rec =
     (case pd_concat train_rec of
        Inl e \<Rightarrow> Inl e
      | Inr d0 \<Rightarrow>
          (let d1 = sort_values d0;
               sd = map (\<lambda>(f, r). (r_subject r, r_day r)) d1;
               day = map (\<lambda>(s, dy). rank_dense sd s dy) sd;
               trial = cumcount (map fst sd);
               n_trials = group_count (zip (map fst sd) day)
           in Inr (map (\<lambda>((f, r), dy, tr, nt).
                          \<lparr>t_subject = r_subject r, t_day = dy, t_trial = int tr,
                           t_cat = r_cat r, t_resp = r_resp r, t_f_name = f,
                           t_acc = (if r_cat r = r_resp r then 1 else 0),
                           t_n_trials = int nt,
                           t_block = int tr div int block_size,
                           t_session_type = ''Training at home''\<rparr>)
                     (zip d1 (zip day (zip trial n_trials))))))"

subsection \<open>The subjects left in \<open>d_all\<close> (lines 210--272)\<close>

definition subjects_of :: "csv_file list \<Rightarrow> int list" where
  "subjects_of dfs = remdups (concat (map (\<lambda>df. map r_subject (rows df)) dfs))"

text \<open>
  Line 236 maps the dense rank of a lab day to a day number and gives NaN from the sixth
  lab day of a subject on; the integer cast of line 261 raises on NaN.
\<close>

definition lab_days_of :: "csv_file list \<Rightarrow> int \<Rightarrow> int list" where
  "lab_days_of lab s =
     remdups (map r_day (filter (\<lambda>r. r_subject r = s) (concat (map rows lab))))"

text \<open>
  Lines 267--272, for frames that have the two Stroop columns. A row is scored when
  \<open>ns_correct_side\<close> is present; the mean of the 0/1 scores of a subject is compared with
  0.8 exactly, and a subject without a scored row has the mean NaN and is dropped.
\<close>

definition stroop_ok :: "raw_row list \<Rightarrow> int \<Rightarrow> bool" where
  "stroop_ok d_all s =
     (let scored = filter (\<lambda>r. r_subject r = s \<and> r_ns_correct_side r \<noteq> None) d_all;
          correct = filter (\<lambda>r. r_ns_correct_side r = r_ns_resp r) scored
      in scored \<noteq> [] \<and> 4 * length scored \<le> 5 * length correct)"

definition included_subjects :: "recs \<Rightarrow> csv_file list \<Rightarrow> py_error + int list" where
  "included_subjects rec lab =
     (if df_dt_rec rec = [] \<or> df_bs_rec rec = [] \<or> lab = [] then Inl ValueError
      else if \<exists>s\<in>set (subjects_of lab). 5 < length (lab_days_of lab s) then Inl ValueError
      else
        let all_subs = sort (remdups (subjects_of (df_train_rec rec) @ subjects_of (df_dt_rec rec)
                          @ subjects_of (df_bs_rec rec) @ subjects_of lab));
            subs_to_keep =
              filter (\<lambda>s. s \<in> set (subjects_of (df_train_rec rec))
                        \<and> s \<in> set (subjects_of (df_dt_rec rec))
                        \<and> s \<in> set (subjects_of (df_bs_rec rec))
                        \<and> s \<in> set (subjects_of lab)) all_subs;
            d_all = concat (map rows (df_train_rec rec @ df_dt_rec rec @ df_bs_rec rec @ lab))
        in Inr (filter (stroop_ok d_all) subs_to_keep))"

subsection \<open>The table handed to the fit (line 297)\<close>

text \<open>
  Everything up to line 296 runs before the fit, so an error there prevents it. The fit
  receives \<open>d\<close>; the second component is the list of subjects that the two exclusion
  steps leave in \<open>d_all\<close>.
\<close>

definition fit_input :: "csv_file list \<Rightarrow> csv_file list \<Rightarrow> py_error + (trial_row list \<times> int list)" where
  "fit_input files lab_files =
     (case load_files empty_recs files of
        Inl e \<Rightarrow> Inl e
      | Inr rec \<Rightarrow>
          (case training_table (df_train_rec rec) of
             Inl e \<Rightarrow> Inl e
           | Inr d \<Rightarrow>
               (case included_subjects rec (load_lab lab_files) of
                  Inl e \<Rightarrow> Inl e
                | Inr subs \<Rightarrow> Inr (d, subs))))"

text \<open>The index of row \<open>i\<close> among the rows of its own subject and day.\<close>

definition within_day_index :: "trial_row list \<Rightarrow> nat \<Rightarrow> nat" where
  "within_day_index d i =
     length (filter (\<lambda>r. t_subject r = t_subject (d ! i) \<and> t_day r = t_day (d ! i)) (take i d))"

section \<open>run\_exp.py (2026\_s1): session set-up and the trial loop\<close>

text \<open>
  The window, the clocks, the random jitter and the waits are outside the model: each pass
  of the main loop is given what the keyboard and the state clock return in it. The EEG
  port is disabled (\<open>EEG_ENABLED = False\<close>), so the pulse calls return at once.
\<close>

datatype state = state_init | state_finished | state_iti | state_stim | state_feedback

text \<open>The variable \<open>resp\<close> holds \<open>-1\<close> or a response label.\<close>

datatype resp_value = NoResp | Label string

text \<open>One row of the stimulus table \<open>ds\<close> (lines 199--216).\<close>

record stimulus =
  ds_cat :: string
  ds_x :: real
  ds_y :: real
  ds_xt :: real
  ds_yt :: real
  ds_phase :: string

text \<open>One row of \<open>trial_data\<close>, which is also one row of the data file.\<close>

record data_row =
  c_subject :: string
  c_day :: int
  c_trial :: int
  c_cat :: string
  c_x :: real
  c_y :: real
  c_xt :: real
  c_yt :: real
  c_resp :: resp_value
  c_rt :: real
  c_fb :: string

text \<open>
  What the script does not compute in the modelled lines. The name \<open>day\<close> is read at
  line 499 and is bound nowhere in the script (the script of 2025\_s2 binds \<open>day = 1\<close>
  itself, at its line 101). Only \<open>from util_func import *\<close> could bind it, and that
  module is not among the sources, so the binding is a parameter: \<open>None\<close> is the script
  as it stands, where reading \<open>day\<close> raises NameError.
\<close>

record config =
  subject :: string
  today_key :: string
  day :: "int option"
  ds :: "stimulus list"

definition n_train :: nat where
  "n_train = 550"

definition n_test :: nat where
  "n_test = 100"

definition n_total :: nat where
  "n_total = n_train + n_test"

record machine =
  running :: bool
  state_current :: state
  state_entry :: bool
  resp :: resp_value
  rt :: real
  trial :: int
  cat :: "string option"
  fb :: "string option"
  trial_data :: "data_row list"
  f_name :: string
  csv :: "data_row list option"

text \<open>
  Lines 158--196. \<open>existing\<close> lists today's data files of the subject with their rows
  (\<open>None\<close> for a file that cannot be read). The result is the file name, the content of
  that file and the value of \<open>trial\<close> after line 196.
\<close>

definition resume :: "config \<Rightarrow> (string \<times> data_row list option) list
    \<Rightarrow> py_error + (string \<times> data_row list option \<times> int)" where
  "resume cfg existing =
     (if length existing > 1 then Inl SystemExit
      else
        case (case existing of
                [(name, content)] \<Rightarrow>
                  (case content of
                     None \<Rightarrow> Inl SystemExit
                   | Some recorded \<Rightarrow> Inr (name, Some recorded, length recorded))
              | _ \<Rightarrow> Inr (''sub_'' @ subject cfg @ ''_date_'' @ today_key cfg @ ''_data.csv'',
                          None, 0)) of
          Inl e \<Rightarrow> Inl e
        | Inr (name, content, n_done) \<Rightarrow>
            if n_done \<ge> n_total then Inl SystemExit
            else Inr (name, content, int n_done - 1))"

text \<open>Lines 300--322: the state the main loop starts in.\<close>

definition session_setup :: "config \<Rightarrow> (string \<times> data_row list option) list \<Rightarrow> py_error + machine" where
  "session_setup cfg existing =
     (case resume cfg existing of
        Inl e \<Rightarrow> Inl e
      | Inr (name, content, trial0) \<Rightarrow>
          (let m0 = \<lparr>running = True, state_current = state_init, state_entry = True,
                     resp = NoResp, rt = -1, trial = trial0, cat = None, fb = None,
                     trial_data = [], f_name = name, csv = content\<rparr>
           in Inr (m0\<lparr>trial := -1\<rparr>)))"

text \<open>What one pass of the loop reads from the keyboard and the state clock.\<close>

record frame =
  pressed :: "(string \<times> real) list"
  time_state :: real

definition getKeys :: "string list \<Rightarrow> frame \<Rightarrow> (string \<times> real) list" where
  "getKeys keyList fr = filter (\<lambda>(name, t). name \<in> set keyList) (pressed fr)"

text \<open>\<open>ds[col].iloc[trial]\<close>: negative positions count from the end.\<close>

definition iloc :: "'a list \<Rightarrow> int \<Rightarrow> py_error + 'a" where
  "iloc xs i =
     (let len = int (length xs); j = (if i < 0 then len + i else i)
      in if 0 \<le> j \<and> j < len then Inr (xs ! nat j) else Inl IndexError)"

text \<open>
  The label chosen at lines 432--449; in a phase other than \<open>train\<close> and \<open>test\<close> the
  name \<open>resp_label\<close> stays unbound.
\<close>

definition response_label :: "string \<Rightarrow> string \<Rightarrow> py_error + string" where
  "response_label phase name =
     (if phase = ''train'' \<or> phase = ''test''
      then Inr (if name = ''d'' then ''A'' else ''B'')
      else Inl NameError)"

text \<open>The state \<open>state_iti\<close> (lines 364--400).\<close>

definition iti_pass :: "config \<Rightarrow> machine \<Rightarrow> frame \<Rightarrow> py_error + machine" where
  "iti_pass cfg m fr =
     (let m1 = m\<lparr>state_entry := False\<rparr> in
      if time_state fr > 1000 then
        (let m2 = m1\<lparr>resp := NoResp, rt := -1, trial := trial m1 + 1\<rparr> in
         if trial m2 \<ge> int n_total
         then Inr (m2\<lparr>state_current := state_finished, state_entry := True\<rparr>)
         else
           (case iloc (ds cfg) (trial m2) of
              Inl e \<Rightarrow> Inl e
            | Inr s \<Rightarrow> Inr (m2\<lparr>cat := Some (ds_cat s), state_current := state_stim,
                                state_entry := True\<rparr>)))
      else Inr m1)"

text \<open>
  The state \<open>state_stim\<close> (lines 403--465). On entry the trigger code is chosen from the
  phase and \<open>cat\<close>; in a phase other than \<open>train\<close> and \<open>test\<close> the name \<open>trig\<close> stays
  unbound.
\<close>

definition stim_entry :: "config \<Rightarrow> machine \<Rightarrow> py_error + unit" where
  "stim_entry cfg m =
     (case iloc (ds cfg) (trial m) of
        Inl e \<Rightarrow> Inl e
      | Inr s \<Rightarrow>
          if ds_phase s = ''train'' \<or> ds_phase s = ''test''
          then (case cat m of None \<Rightarrow> Inl NameError | Some c \<Rightarrow> Inr ())
          else Inl NameError)"

definition stim_response :: "config \<Rightarrow> machine \<Rightarrow> string \<times> real \<Rightarrow> py_error + machine" where
  "stim_response cfg m key =
     (case iloc (ds cfg) (trial m) of
        Inl e \<Rightarrow> Inl e
      | Inr s \<Rightarrow>
          (case response_label (ds_phase s) (fst key) of
             Inl e \<Rightarrow> Inl e
           | Inr resp_label \<Rightarrow>
               (case cat m of
                  None \<Rightarrow> Inl NameError
                | Some c \<Rightarrow>
                    Inr (m\<lparr>rt := snd key * 1000,
                           fb := Some (if c = resp_label then ''Correct'' else ''Incorrect''),
                           resp := Label resp_label,
                           state_current := state_feedback,
                           state_entry := True\<rparr>))))"

definition stim_pass :: "config \<Rightarrow> machine \<Rightarrow> frame \<Rightarrow> py_error + machine" where
  "stim_pass cfg m fr =
     (case (if state_entry m then stim_entry cfg m else Inr ()) of
        Inl e \<Rightarrow> Inl e
      | Inr u \<Rightarrow>
          (let m1 = m\<lparr>state_entry := False\<rparr> in
           case getKeys [''d'', ''k''] fr of
             [] \<Rightarrow> Inr m1
           | key # others \<Rightarrow> stim_response cfg m1 (last (key # others))))"

text \<open>
  The state \<open>state_feedback\<close> (lines 468--520). After 1000 ms the row of the trial is
  appended to \<open>trial_data\<close> and \<open>to_csv\<close> writes the whole of \<open>trial_data\<close> to the data
  file, replacing what the file held.
\<close>

definition feedback_entry :: "config \<Rightarrow> machine \<Rightarrow> py_error + unit" where
  "feedback_entry cfg m =
     (case iloc (ds cfg) (trial m) of
        Inl e \<Rightarrow> Inl e
      | Inr s \<Rightarrow>
          if ds_phase s = ''train'' \<or> ds_phase s = ''test''
          then (case fb m of None \<Rightarrow> Inl NameError | Some f \<Rightarrow> Inr ())
          else Inr ())"

definition save_trial :: "config \<Rightarrow> machine \<Rightarrow> py_error + machine" where
  "save_trial cfg m =
     (case day cfg of
        None \<Rightarrow> Inl NameError
      | Some dy \<Rightarrow>
          (case iloc (ds cfg) (trial m) of
             Inl e \<Rightarrow> Inl e
           | Inr s \<Rightarrow>
               (case fb m of
                  None \<Rightarrow> Inl NameError
                | Some f \<Rightarrow>
                    (let row = \<lparr>c_subject = subject cfg, c_day = dy, c_trial = trial m,
                                c_cat = ds_cat s, c_x = ds_x s, c_y = ds_y s,
                                c_xt = ds_xt s, c_yt = ds_yt s, c_resp = resp m,
                                c_rt = rt m, c_fb = f\<rparr>;
                         m2 = m\<lparr>trial_data := trial_data m @ [row]\<rparr>;
                         m3 = m2\<lparr>csv := Some (trial_data m2)\<rparr>
                     in Inr (m3\<lparr>state_current := state_iti, state_entry := True,
                                 resp := NoResp, rt := -1\<rparr>)))))"

definition feedback_pass :: "config \<Rightarrow> machine \<Rightarrow> frame \<Rightarrow> py_error + machine" where
  "feedback_pass cfg m fr =
     (case (if state_entry m then feedback_entry cfg m else Inr ()) of
        Inl e \<Rightarrow> Inl e
      | Inr u \<Rightarrow>
          (let m1 = m\<lparr>state_entry := False\<rparr> in
           if time_state fr > 1000 then save_trial cfg m1 else Inr m1))"

text \<open>One pass of the main loop (lines 326--520).\<close>

definition step :: "config \<Rightarrow> machine \<Rightarrow> frame \<Rightarrow> py_error + machine" where
  "step cfg m fr =
     (if getKeys [''escape''] fr \<noteq> [] then Inr (m\<lparr>running := False\<rparr>)
      else
        (case state_current m of
           state_init \<Rightarrow>
             (let m1 = m\<lparr>state_entry := False\<rparr> in
              if getKeys [''space''] fr \<noteq> []
              then Inr (m1\<lparr>state_current := state_iti, state_entry := True\<rparr>)
              else Inr m1)
         | state_finished \<Rightarrow> Inr (m\<lparr>state_entry := False\<rparr>)
         | state_iti \<Rightarrow> iti_pass cfg m fr
         | state_stim \<Rightarrow> stim_pass cfg m fr
         | state_feedback \<Rightarrow> feedback_pass cfg m fr))"

text \<open>The \<open>while running\<close> loop over the passes that occur.\<close>

fun run :: "config \<Rightarrow> machine \<Rightarrow> frame list \<Rightarrow> py_error + machine" where
  "run cfg m [] = Inr m"
| "run cfg m (fr # frs) =
     (if running m
      then (case step cfg m fr of Inl e \<Rightarrow> Inl e | Inr m' \<Rightarrow> run cfg m' frs)
      else Inr m)"

text \<open>
  The invariant of the loop: the recorded rows are numbered from 0, the data file holds
  its content from before the session until the first save and exactly the recorded rows
  afterwards, and \<open>trial\<close> follows the number of recorded rows.
\<close>

definition session_inv :: "data_row list option \<Rightarrow> machine \<Rightarrow> bool" where
  "session_inv csv0 m =
     (map c_trial (trial_data m) = map int [0..<length (trial_data m)]
      \<and> csv m = (if trial_data m = [] then csv0 else Some (trial_data m))
      \<and> (state_current m = state_init \<or> state_current m = state_iti
            \<longrightarrow> trial m = int (length (trial_data m)) - 1)
      \<and> (state_current m = state_stim \<or> state_current m = state_feedback
            \<longrightarrow> trial m = int (length (trial_data m))))"

section \<open>The fitting engine behind \<open>fit_dbm\<close>\<close>

text \<open>
  The call of line 297 hands each group of \<open>d\<close> to \<open>fit_dbm\<close> together with the lists
  \<open>models\<close>, \<open>side\<close>, \<open>k\<close>, the number \<open>n\<close> and \<open>model_names\<close>. The module
  \<open>util_func_dbm\<close> that defines \<open>fit_dbm\<close> and the three objective functions is not among
  the inspected sources, so what follows is written from the specification.
\<close>

text \<open>
  Modelled from the spec: the parameter count of a family (the table of section 3:
  2 for unix, 2 for uniy, 3 for glc). The objective functions themselves are missing.
\<close>

fun family_k :: "nll_fun \<Rightarrow> nat" where
  "family_k nll_unix = 2"
| "family_k nll_uniy = 2"
| "family_k nll_glc = 3"

text \<open>One Fit Result, with whatever the optimizer returned for it.\<close>

record 'r fit =
  fit_model :: string
  fit_family :: nll_fun
  fit_side :: int
  fit_k :: nat
  fit_optimum :: 'r

datatype fit_error = EmptyGroup | ListTooShort

text \<open>
  Modelled from the spec: the body of \<open>fit_dbm\<close> is missing. Section 4.4: for each
  (family, side) combination the optimizer is run over every trial of the group and one
  Fit Result is recorded; a group with no trial is reported as unfit. The combinations
  are read off the argument lists position by position, along \<open>models\<close>. The optimizer
  (section 4.3) is the parameter \<open>minimize\<close>. The BIC is left out: the sources do not
  show which sample size the missing body uses.
\<close>

definition fit_one :: "(nll_fun \<Rightarrow> int \<Rightarrow> 't list \<Rightarrow> 'r) \<Rightarrow> 't list \<Rightarrow> nll_fun list \<Rightarrow> int list
    \<Rightarrow> nat list \<Rightarrow> string list \<Rightarrow> nat \<Rightarrow> fit_error + 'r fit" where
  "fit_one minimize x model_func sides ks names i =
     (if i < length sides \<and> i < length ks \<and> i < length names
      then Inr \<lparr>fit_model = names ! i, fit_family = model_func ! i, fit_side = sides ! i,
                fit_k = ks ! i, fit_optimum = minimize (model_func ! i) (sides ! i) x\<rparr>
      else Inl ListTooShort)"

definition fit_dbm :: "(nll_fun \<Rightarrow> int \<Rightarrow> 't list \<Rightarrow> 'r) \<Rightarrow> 't list \<Rightarrow> nll_fun list \<Rightarrow> int list
    \<Rightarrow> nat list \<Rightarrow> nat \<Rightarrow> string list \<Rightarrow> fit_error + 'r fit list" where
  "fit_dbm minimize x model_func sides ks sample names =
     (if x = [] then Inl EmptyGroup
      else collect (map (fit_one minimize x model_func sides ks names) [0..<length model_func]))"

text \<open>
  Modelled from the spec: the decision functions and the response probability of the
  Likelihood Evaluator (sections 4.1 and 4.2) are missing from the sources. A model is a
  family with its parameter vector; the last parameter is the noise scale.
\<close>

datatype decision_bound = Unix real real | Uniy real real | Glc real real real

fun discriminant :: "decision_bound \<Rightarrow> real \<times> real \<Rightarrow> real" where
  "discriminant (Unix bound noise) (x, y) = x - bound"
| "discriminant (Uniy bound noise) (x, y) = y - bound"
| "discriminant (Glc slope intercept noise) (x, y) = slope * x + intercept - y"

fun noise_scale :: "decision_bound \<Rightarrow> real" where
  "noise_scale (Unix bound noise) = noise"
| "noise_scale (Uniy bound noise) = noise"
| "noise_scale (Glc slope intercept noise) = noise"

definition side_sign :: "int \<Rightarrow> real" where
  "side_sign sd = (if sd = 0 then 1 else -1)"

text \<open>Clamping to the interval from \<open>eps\<close> to \<open>1 - eps\<close>.\<close>

definition clamp :: "real \<Rightarrow> real \<Rightarrow> real" where
  "clamp eps q = max eps (min (1 - eps) q)"

text \<open>
  Modelled from the spec: \<open>p(A) = \<Phi>(-side_sign * d / \<sigma>)\<close>, clamped. The distribution
  function \<open>\<Phi>\<close> and the bound \<open>eps\<close> are parameters; a proposed noise scale that is not
  positive gives no probability (the evaluator then returns its penalty). The numbers
  are reals, not floats.
\<close>

definition response_probability ::
    "(real \<Rightarrow> real) \<Rightarrow> real \<Rightarrow> decision_bound \<Rightarrow> int \<Rightarrow> real \<times> real \<Rightarrow> real option" where
  "response_probability Phi eps mdl sd pt =
     (if noise_scale mdl \<le> 0 then None
      else Some (clamp eps (Phi (- side_sign sd * discriminant mdl pt / noise_scale mdl))))"

section \<open>Concrete inputs\<close>

text \<open>
  A fit-result table with two groups; in the group of subject 1 the two glc variants tie
  at the least BIC and \<open>nll_glc_1\<close> comes first in the table.
\<close>

definition dbm_example :: "fit_result list" where
  "dbm_example =
     [\<lparr>fr_subject = 2, fr_day = 1, fr_model = ''nll_unix_0'', fr_bic = Num 40,
       fr_p = ''[0.5 1.0]''\<rparr>,
      \<lparr>fr_subject = 1, fr_day = 1, fr_model = ''nll_glc_1'', fr_bic = Num 31.5,
       fr_p = ''[1.0 0.0 1.0]''\<rparr>,
      \<lparr>fr_subject = 1, fr_day = 1, fr_model = ''nll_unix_0'', fr_bic = Num 36,
       fr_p = ''[0.5 1.0]''\<rparr>,
      \<lparr>fr_subject = 1, fr_day = 1, fr_model = ''nll_glc_0'', fr_bic = Num 31.5,
       fr_p = ''[1.0 0.0 1.0]''\<rparr>]"

definition glc_assignment :: assignment where
  "glc_assignment =
     \<lparr>a_subject = 1, a_day = 1, a_bic = Num 31.5, a_best_model = ''nll_glc_0'',
      a_best_model_class = ''procedural''\<rparr>"

definition unix_assignment :: assignment where
  "unix_assignment =
     \<lparr>a_subject = 2, a_day = 1, a_bic = Num 40, a_best_model = ''nll_unix_0'',
      a_best_model_class = ''rule-based''\<rparr>"

text \<open>
  A table in which the group of subject 1 and day 1 holds two fit results of the same
  name with different BIC, with the two rows the selector returns for it; and a table in
  which a BIC of the group of subject 2 is NaN.
\<close>

definition twice_named_table :: "fit_result list" where
  "twice_named_table =
     [\<lparr>fr_subject = 1, fr_day = 1, fr_model = ''nll_glc_0'', fr_bic = Num 30,
       fr_p = ''[1.0 0.0 1.0]''\<rparr>,
      \<lparr>fr_subject = 1, fr_day = 1, fr_model = ''nll_glc_0'', fr_bic = Num 35,
       fr_p = ''[1.5 0.0 1.0]''\<rparr>]"

definition first_glc_row :: assignment where
  "first_glc_row =
     \<lparr>a_subject = 1, a_day = 1, a_bic = Num 30, a_best_model = ''nll_glc_0'',
      a_best_model_class = ''procedural''\<rparr>"

definition second_glc_row :: assignment where
  "second_glc_row =
     \<lparr>a_subject = 1, a_day = 1, a_bic = Num 35, a_best_model = ''nll_glc_0'',
      a_best_model_class = ''procedural''\<rparr>"

definition nan_table :: "fit_result list" where
  "nan_table =
     [\<lparr>fr_subject = 1, fr_day = 1, fr_model = ''nll_unix_0'', fr_bic = Num 36,
       fr_p = ''[0.5 1.0]''\<rparr>,
      \<lparr>fr_subject = 2, fr_day = 1, fr_model = ''nll_unix_0'', fr_bic = NaN,
       fr_p = ''[0.5 1.0]''\<rparr>]"

text \<open>
  One subject with 25 trials on a first day and one trial on a second day, and the
  training table the script builds from the two files.
\<close>

definition example_row :: "int \<Rightarrow> int \<Rightarrow> int \<Rightarrow> raw_row" where
  "example_row s dy tr =
     \<lparr>r_subject = s, r_day = dy, r_trial = tr, r_cat = ''A'', r_resp = ''A'',
      r_ns_correct_side = None, r_ns_resp = None\<rparr>"

definition two_day_files :: "csv_file list" where
  "two_day_files =
     [\<lparr>fs = ''sub_001_day_01_data.csv'', rows = map (example_row 1 1) [0..<25]\<rparr>,
      \<lparr>fs = ''sub_001_day_02_data.csv'', rows = [example_row 1 2 0]\<rparr>]"

definition two_day_table :: "trial_row list" where
  "two_day_table = (case training_table two_day_files of Inr d \<Rightarrow> d | Inl e \<Rightarrow> [])"

text \<open>
  Subject 1 has a training day, the dual-task day with one correct Stroop response, a
  button-switch day and a lab session; subject 2 has a training day only.
\<close>

definition stroop_row :: "int \<Rightarrow> int \<Rightarrow> int \<Rightarrow> raw_row" where
  "stroop_row s dy tr =
     \<lparr>r_subject = s, r_day = dy, r_trial = tr, r_cat = ''A'', r_resp = ''A'',
      r_ns_correct_side = Some ''left'', r_ns_resp = Some ''left''\<rparr>"

definition study_files :: "csv_file list" where
  "study_files =
     [\<lparr>fs = ''sub_001_day_01_data.csv'', rows = [example_row 1 1 0]\<rparr>,
      \<lparr>fs = ''sub_001_day_22_data.csv'', rows = [stroop_row 1 22 0]\<rparr>,
      \<lparr>fs = ''sub_001_day_23_data.csv'', rows = [example_row 1 23 0]\<rparr>,
      \<lparr>fs = ''sub_002_day_01_data.csv'', rows = [example_row 2 1 0]\<rparr>]"

definition study_lab :: "csv_file list" where
  "study_lab = [\<lparr>fs = ''sub_001_day_101_data.csv'', rows = [example_row 1 101 0]\<rparr>]"

definition study_table :: "trial_row list" where
  "study_table =
     (case fit_input study_files study_lab of Inr (d, subs) \<Rightarrow> d | Inl e \<Rightarrow> [])"

text \<open>
  A session of the script as it stands, resumed on a data file that already holds two
  trials: the space bar, the end of the first interval, the response \<open>d\<close> and the end of the
  feedback. \<open>resumed_feedback\<close> is the state before the last of these passes.
\<close>

definition one_stimulus :: stimulus where
  "one_stimulus =
     \<lparr>ds_cat = ''A'', ds_x = 30, ds_y = 60, ds_xt = 1.5, ds_yt = 0.5, ds_phase = ''train''\<rparr>"

definition script_config :: config where
  "script_config =
     \<lparr>subject = ''0123456789ab'', today_key = ''20260105'', day = None,
      ds = replicate 650 one_stimulus\<rparr>"

definition recorded_row :: "int \<Rightarrow> data_row" where
  "recorded_row i =
     \<lparr>c_subject = ''0123456789ab'', c_day = 3, c_trial = i, c_cat = ''B'', c_x = 70,
      c_y = 40, c_xt = 2.5, c_yt = 1, c_resp = Label ''B'', c_rt = 640, c_fb = ''Correct''\<rparr>"

definition interrupted_file :: "(string \<times> data_row list option) list" where
  "interrupted_file =
     [(''sub_0123456789ab_date_20260105_data.csv'', Some [recorded_row 0, recorded_row 1])]"

definition response_frames :: "frame list" where
  "response_frames =
     [\<lparr>pressed = [(''space'', 2)], time_state = 2000\<rparr>,
      \<lparr>pressed = [], time_state = 1001\<rparr>,
      \<lparr>pressed = [(''d'', 0.5)], time_state = 500\<rparr>]"

definition save_frame :: frame where
  "save_frame = \<lparr>pressed = [], time_state = 1001\<rparr>"

definition resumed_start :: machine where
  "resumed_start =
     \<lparr>running = True, state_current = state_init, state_entry = True, resp = NoResp,
      rt = -1, trial = -1, cat = None, fb = None, trial_data = [],
      f_name = ''sub_0123456789ab_date_20260105_data.csv'',
      csv = Some [recorded_row 0, recorded_row 1]\<rparr>"

definition resumed_feedback :: machine where
  "resumed_feedback =
     \<lparr>running = True, state_current = state_feedback, state_entry = True,
      resp = Label ''A'', rt = 500, trial = 0, cat = Some ''A'', fb = Some ''Correct'',
      trial_data = [],
      f_name = ''sub_0123456789ab_date_20260105_data.csv'',
      csv = Some [recorded_row 0, recorded_row 1]\<rparr>"

text \<open>
  A distribution function as floating-point arithmetic delivers it far from zero
  (exactly 0 or 1), and an optimizer that returns nothing, for a group of one trial.
\<close>

definition saturated_cdf :: "real \<Rightarrow> real" where
  "saturated_cdf z = (if z < 0 then 0 else 1)"

definition no_optimizer :: "nll_fun \<Rightarrow> int \<Rightarrow> nat list \<Rightarrow> unit" where
  "no_optimizer f sd x = ()"

section \<open>Proofs: the selector\<close>

lemma collect_Inr: "collect xs = Inr vs \<Longrightarrow> xs = map Inr vs"
proof (induction xs arbitrary: vs)
  case Nil
  then show ?case by simp
next
  case (Cons x xs)
  then show ?case
    by (cases x) (auto split: sum.splits)
qed

lemma finite_vals_Some: "finite_vals bs = Some vs \<Longrightarrow> bs = map Num vs"
proof (induction bs arbitrary: vs rule: finite_vals.induct)
  case 1
  then show ?case by simp
next
  case (2 bs)
  then show ?case by simp
next
  case (3 x bs)
  then show ?case by auto
qed

lemma np_min_Num:
  assumes "np_min bs = Inr (Num v)"
  shows "\<exists>vs. bs = map Num vs \<and> vs \<noteq> [] \<and> v = Min (set vs)"
proof -
  from assms obtain v0 vs where fv: "finite_vals bs = Some (v0 # vs)" and v: "v = fold min vs v0"
    by (auto simp: np_min_def split: option.splits list.splits)
  have "bs = map Num (v0 # vs)" using fv by (rule finite_vals_Some)
  moreover have "v = Min (set (v0 # vs))" using v Min.set_eq_fold [of v0 vs] by simp
  ultimately show ?thesis by blast
qed

lemma num_eq_NaN [simp]: "num_eq b NaN = False"
  by (cases b) simp_all

lemma num_eq_Num [simp]: "num_eq b (Num v) = (b = Num v)"
  by (cases b) auto

lemma mask_names:
  "map fst (filter (\<lambda>(mo, b). num_eq b m) (zip (map fr_model x) (map fr_bic x)))
     = map fr_model (filter (\<lambda>r. num_eq (fr_bic r) m) x)"
  by (induction x) auto

lemma np_unique_set [simp]: "set (np_unique xs) = set xs"
  by (simp add: np_unique_def)

lemma np_unique_first:
  assumes "np_unique xs = b # rest"
  shows "b \<in> set xs \<and> (\<forall>x\<in>set xs. b \<le> x)"
proof -
  have s: "sorted (np_unique xs)"
    by (simp add: np_unique_def)
  have "set (b # rest) = set xs" using assms np_unique_set by metis
  moreover have "\<forall>x\<in>set (b # rest). b \<le> x" using s assms by auto
  ultimately show ?thesis by auto
qed

lemma assign_best_model_Inr:
  assumes "assign_best_model x = Inr ys"
  shows "\<exists>best m. ys = map (\<lambda>r. (r, best)) x
           \<and> (\<forall>r\<in>set x. \<exists>b. fr_bic r = Num b \<and> m \<le> b)
           \<and> (\<exists>r\<in>set x. fr_bic r = Num m \<and> fr_model r = best)
           \<and> (\<forall>r\<in>set x. fr_bic r = Num m \<longrightarrow> best \<le> fr_model r)"
proof -
  from assms obtain m0 where m0: "np_min (map fr_bic x) = Inr m0"
    by (auto simp: assign_best_model_def Let_def split: sum.splits)
  from assms m0 obtain best rest where
    u: "np_unique (map fr_model (filter (\<lambda>r. num_eq (fr_bic r) m0) x)) = best # rest"
    and ys: "ys = map (\<lambda>r. (r, best)) x"
    by (auto simp: assign_best_model_def Let_def mask_names split: list.splits)
  have "m0 \<noteq> NaN"
  proof
    assume "m0 = NaN"
    with u show False by (simp add: np_unique_def)
  qed
  then obtain m where m: "m0 = Num m" by (cases m0) auto
  from np_min_Num [OF m0 [unfolded m]] obtain vs where
    vs: "map fr_bic x = map Num vs" "vs \<noteq> []" "m = Min (set vs)" by blast
  have fin: "\<forall>r\<in>set x. \<exists>b. fr_bic r = Num b \<and> m \<le> b"
  proof
    fix r assume "r \<in> set x"
    then have "fr_bic r \<in> set (map fr_bic x)" by simp
    then obtain b where b: "fr_bic r = Num b" "b \<in> set vs" unfolding vs(1) by auto
    then have "m \<le> b" using vs(3) by simp
    with b show "\<exists>b. fr_bic r = Num b \<and> m \<le> b" by blast
  qed
  from np_unique_first [OF u] have
    b1: "best \<in> fr_model ` {r \<in> set x. fr_bic r = Num m}"
    and b2: "\<forall>r\<in>set x. fr_bic r = Num m \<longrightarrow> best \<le> fr_model r"
    by (auto simp: m)
  from b1 have "\<exists>r\<in>set x. fr_bic r = Num m \<and> fr_model r = best" by auto
  with ys fin b2 show ?thesis by blast
qed

lemma set_drop_duplicates [simp]: "set (drop_duplicates xs) = set xs"
  by (induction xs rule: drop_duplicates.induct) auto

lemma set_group_keys [simp]: "set (group_keys dbm) = fr_key ` set dbm"
  by (simp add: group_keys_def)

lemma table_groups:
  assumes "best_model_table dbm = Inr out"
  shows "\<exists>gs. map (\<lambda>key. assign_best_model (filter (\<lambda>r. fr_key r = key) dbm)) (group_keys dbm)
               = map Inr gs
            \<and> out = map mk_assignment (drop_duplicates (select_rows (concat gs)))"
proof -
  from assms obtain gs where
    c: "collect (map (\<lambda>(key, x). assign_best_model x) (groupby dbm)) = Inr gs"
    and o: "out = map mk_assignment (drop_duplicates (select_rows (concat gs)))"
    by (auto simp: best_model_table_def split: sum.splits if_splits)
  have "map (\<lambda>(key, x). assign_best_model x) (groupby dbm)
        = map (\<lambda>key. assign_best_model (filter (\<lambda>r. fr_key r = key) dbm)) (group_keys dbm)"
    by (simp add: groupby_def comp_def)
  with collect_Inr [OF c] o show ?thesis by metis
qed

lemma map_Inr_set:
  "map f xs = map Inr gs \<Longrightarrow> set gs = {g. \<exists>x\<in>set xs. f x = Inr g}"
proof (induction xs arbitrary: gs)
  case Nil
  then show ?case by simp
next
  case (Cons x xs)
  then obtain g gs' where gs: "gs = g # gs'" "f x = Inr g" "map f xs = map Inr gs'"
    by (cases gs) auto
  from Cons.IH [OF gs(3)] gs(1,2) show ?case by auto
qed

lemma in_select_rows:
  "row \<in> set (select_rows sel) \<longleftrightarrow>
     (\<exists>r. (r, fr_model r) \<in> set sel \<and> row = (fr_subject r, fr_day r, fr_bic r, fr_model r))"
  by (auto simp: select_rows_def)

lemma table_rows:
  assumes "best_model_table dbm = Inr out"
  shows "\<exists>sel. out = map mk_assignment (drop_duplicates sel)
           \<and> (\<forall>row. row \<in> set sel \<longleftrightarrow>
                 (\<exists>r\<in>set dbm. \<exists>ys. assign_best_model (filter (\<lambda>r'. fr_key r' = fr_key r) dbm) = Inr ys
                     \<and> (r, fr_model r) \<in> set ys
                     \<and> row = (fr_subject r, fr_day r, fr_bic r, fr_model r)))"
proof -
  from table_groups [OF assms] obtain gs where
    gs: "map (\<lambda>key. assign_best_model (filter (\<lambda>r. fr_key r = key) dbm)) (group_keys dbm) = map Inr gs"
    and o: "out = map mk_assignment (drop_duplicates (select_rows (concat gs)))" by blast
  have sg: "set gs = {g. \<exists>key\<in>fr_key ` set dbm. assign_best_model (filter (\<lambda>r. fr_key r = key) dbm) = Inr g}"
    using map_Inr_set [OF gs] by simp
  have "\<forall>row. row \<in> set (select_rows (concat gs)) \<longleftrightarrow>
           (\<exists>r\<in>set dbm. \<exists>ys. assign_best_model (filter (\<lambda>r'. fr_key r' = fr_key r) dbm) = Inr ys
                     \<and> (r, fr_model r) \<in> set ys
                     \<and> row = (fr_subject r, fr_day r, fr_bic r, fr_model r))"
  proof (intro allI iffI)
    fix row assume "row \<in> set (select_rows (concat gs))"
    then obtain r where r: "(r, fr_model r) \<in> set (concat gs)"
      "row = (fr_subject r, fr_day r, fr_bic r, fr_model r)"
      unfolding in_select_rows by blast
    then obtain g where g: "g \<in> set gs" "(r, fr_model r) \<in> set g" by auto
    then obtain key where key: "key \<in> fr_key ` set dbm"
      "assign_best_model (filter (\<lambda>r. fr_key r = key) dbm) = Inr g" using sg by blast
    from assign_best_model_Inr [OF key(2)] obtain best where
      "g = map (\<lambda>r. (r, best)) (filter (\<lambda>r. fr_key r = key) dbm)" by blast
    with g(2) have "r \<in> set dbm" "fr_key r = key" by auto
    with key(2) g(2) r(2)
    show "\<exists>r\<in>set dbm. \<exists>ys. assign_best_model (filter (\<lambda>r'. fr_key r' = fr_key r) dbm) = Inr ys
                     \<and> (r, fr_model r) \<in> set ys
                     \<and> row = (fr_subject r, fr_day r, fr_bic r, fr_model r)" by blast
  next
    fix row
    assume "\<exists>r\<in>set dbm. \<exists>ys. assign_best_model (filter (\<lambda>r'. fr_key r' = fr_key r) dbm) = Inr ys
                     \<and> (r, fr_model r) \<in> set ys
                     \<and> row = (fr_subject r, fr_day r, fr_bic r, fr_model r)"
    then obtain r ys where r: "r \<in> set dbm"
      "assign_best_model (filter (\<lambda>r'. fr_key r' = fr_key r) dbm) = Inr ys"
      "(r, fr_model r) \<in> set ys" "row = (fr_subject r, fr_day r, fr_bic r, fr_model r)" by blast
    from r(1,2) have "ys \<in> set gs" using sg by auto
    with r(3) have "(r, fr_model r) \<in> set (concat gs)" by auto
    with r(4) show "row \<in> set (select_rows (concat gs))" unfolding in_select_rows by blast
  qed
  with o show ?thesis by blast
qed

lemma mk_assignment_sel [simp]:
  "a_subject (mk_assignment (s, d, b, m)) = s"
  "a_day (mk_assignment (s, d, b, m)) = d"
  "a_bic (mk_assignment (s, d, b, m)) = b"
  "a_best_model (mk_assignment (s, d, b, m)) = m"
  "a_best_model_class (mk_assignment (s, d, b, m)) = best_model_class m"
  by (simp_all add: mk_assignment_def)

lemma table_row_origin:
  assumes "best_model_table dbm = Inr out" and "a \<in> set out"
  shows "\<exists>r\<in>set dbm. \<exists>ys. assign_best_model (filter (\<lambda>r'. fr_key r' = fr_key r) dbm) = Inr ys
            \<and> (r, fr_model r) \<in> set ys
            \<and> a = mk_assignment (fr_subject r, fr_day r, fr_bic r, fr_model r)"
proof -
  from table_rows [OF assms(1)] obtain sel where
    o: "out = map mk_assignment (drop_duplicates sel)"
    and sel: "\<forall>row. row \<in> set sel \<longleftrightarrow>
                 (\<exists>r\<in>set dbm. \<exists>ys. assign_best_model (filter (\<lambda>r'. fr_key r' = fr_key r) dbm) = Inr ys
                     \<and> (r, fr_model r) \<in> set ys
                     \<and> row = (fr_subject r, fr_day r, fr_bic r, fr_model r))" by blast
  from assms(2) o obtain row where row: "row \<in> set sel" "a = mk_assignment row" by auto
  from sel row(1) obtain r ys where "r \<in> set dbm"
    "assign_best_model (filter (\<lambda>r'. fr_key r' = fr_key r) dbm) = Inr ys"
    "(r, fr_model r) \<in> set ys" "row = (fr_subject r, fr_day r, fr_bic r, fr_model r)"
    by blast
  with row(2) show ?thesis by blast
qed

text \<open>
  C2. Every row of the selector's output names, for its (subject, day) group, a fit result
  of that group whose BIC is the least of the group, and among the fit results that
  attain this least BIC exactly its model name is the first in lexicographic order. The
  row's own BIC is that of a fit result of the group with the chosen name, and it is the
  least BIC when a model name occurs with one BIC only in a group.
\<close>

theorem best_model_least_bic_first_name:
  assumes "best_model_table dbm = Inr out" and "a \<in> set out"
  shows "\<exists>m. (\<forall>r\<in>set dbm. fr_key r = (a_subject a, a_day a) \<longrightarrow> (\<exists>b. fr_bic r = Num b \<and> m \<le> b))
           \<and> (\<exists>r\<in>set dbm. fr_key r = (a_subject a, a_day a) \<and> fr_bic r = Num m
                 \<and> fr_model r = a_best_model a)
           \<and> (\<forall>r\<in>set dbm. fr_key r = (a_subject a, a_day a) \<and> fr_bic r = Num m
                 \<longrightarrow> a_best_model a \<le> fr_model r)
           \<and> (\<exists>r\<in>set dbm. fr_key r = (a_subject a, a_day a) \<and> fr_model r = a_best_model a
                 \<and> fr_bic r = a_bic a)
           \<and> ((\<forall>r\<in>set dbm. \<forall>r'\<in>set dbm. fr_key r = fr_key r' \<and> fr_model r = fr_model r'
                   \<longrightarrow> fr_bic r = fr_bic r') \<longrightarrow> a_bic a = Num m)"
proof -
  from table_row_origin [OF assms] obtain r0 ys where
    r0: "r0 \<in> set dbm"
    and ys: "assign_best_model (filter (\<lambda>r'. fr_key r' = fr_key r0) dbm) = Inr ys"
    and mem: "(r0, fr_model r0) \<in> set ys"
    and a: "a = mk_assignment (fr_subject r0, fr_day r0, fr_bic r0, fr_model r0)" by blast
  have key: "(a_subject a, a_day a) = fr_key r0" by (simp add: a fr_key_def)
  from assign_best_model_Inr [OF ys] obtain best m where
    y: "ys = map (\<lambda>r. (r, best)) (filter (\<lambda>r'. fr_key r' = fr_key r0) dbm)"
    and lo: "\<forall>r\<in>set (filter (\<lambda>r'. fr_key r' = fr_key r0) dbm). \<exists>b. fr_bic r = Num b \<and> m \<le> b"
    and at: "\<exists>r\<in>set (filter (\<lambda>r'. fr_key r' = fr_key r0) dbm). fr_bic r = Num m \<and> fr_model r = best"
    and fi: "\<forall>r\<in>set (filter (\<lambda>r'. fr_key r' = fr_key r0) dbm). fr_bic r = Num m \<longrightarrow> best \<le> fr_model r"
    by blast
  from mem y have best: "a_best_model a = best" by (auto simp: a)
  have 1: "\<forall>r\<in>set dbm. fr_key r = (a_subject a, a_day a) \<longrightarrow> (\<exists>b. fr_bic r = Num b \<and> m \<le> b)"
    using lo by (simp add: key)
  have 2: "\<exists>r\<in>set dbm. fr_key r = (a_subject a, a_day a) \<and> fr_bic r = Num m \<and> fr_model r = a_best_model a"
    using at by (auto simp: key best)
  have 3: "\<forall>r\<in>set dbm. fr_key r = (a_subject a, a_day a) \<and> fr_bic r = Num m \<longrightarrow> a_best_model a \<le> fr_model r"
    using fi by (simp add: key best)
  have 4: "\<exists>r\<in>set dbm. fr_key r = (a_subject a, a_day a) \<and> fr_model r = a_best_model a \<and> fr_bic r = a_bic a"
    using r0 by (auto simp: a fr_key_def intro!: bexI [of _ r0])
  have 5: "(\<forall>r\<in>set dbm. \<forall>r'\<in>set dbm. fr_key r = fr_key r' \<and> fr_model r = fr_model r'
                   \<longrightarrow> fr_bic r = fr_bic r') \<longrightarrow> a_bic a = Num m"
  proof
    assume fd: "\<forall>r\<in>set dbm. \<forall>r'\<in>set dbm. fr_key r = fr_key r' \<and> fr_model r = fr_model r' \<longrightarrow> fr_bic r = fr_bic r'"
    from at obtain r1 where r1: "r1 \<in> set dbm" "fr_key r1 = fr_key r0" "fr_bic r1 = Num m" "fr_model r1 = best"
      by auto
    have "fr_model r0 = best" using best by (simp add: a)
    with fd r0 r1 have "fr_bic r0 = fr_bic r1" by metis
    then show "a_bic a = Num m" using r1(3) by (simp add: a)
  qed
  from 1 2 3 4 5 show ?thesis by blast
qed

lemma best_model_class_names:
  "best_model_class ''nll_unix_0'' = ''rule-based''"
  "best_model_class ''nll_unix_1'' = ''rule-based''"
  "best_model_class ''nll_uniy_0'' = ''rule-based''"
  "best_model_class ''nll_uniy_1'' = ''rule-based''"
  "best_model_class ''nll_glc_0'' = ''procedural''"
  "best_model_class ''nll_glc_1'' = ''procedural''"
  by (simp_all add: best_model_class_def str_get_def)

lemma family_of_names:
  "family_of ''nll_unix_0'' = Some nll_unix"
  "family_of ''nll_unix_1'' = Some nll_unix"
  "family_of ''nll_uniy_0'' = Some nll_uniy"
  "family_of ''nll_uniy_1'' = Some nll_uniy"
  "family_of ''nll_glc_0'' = Some nll_glc"
  "family_of ''nll_glc_1'' = Some nll_glc"
  by (simp_all add: family_of_def model_names_def models_def)

lemma class_of_model_name:
  assumes "name \<in> set model_names"
  shows "(best_model_class name = ''procedural'' \<longleftrightarrow> family_of name = Some nll_glc)
       \<and> (best_model_class name = ''rule-based'' \<longleftrightarrow>
            family_of name = Some nll_unix \<or> family_of name = Some nll_uniy)"
proof -
  have "list_all (\<lambda>name.
          (best_model_class name = ''procedural'' \<longleftrightarrow> family_of name = Some nll_glc)
        \<and> (best_model_class name = ''rule-based'' \<longleftrightarrow>
             family_of name = Some nll_unix \<or> family_of name = Some nll_uniy)) model_names"
    unfolding model_names_def
    by (simp add: best_model_class_names family_of_names)
  then show ?thesis using assms unfolding list_all_iff by blast
qed

text \<open>
  C3. For a table whose model names are the six names of the call site, the class of
  every output row is \<open>procedural\<close> exactly when the family of the winning model is glc,
  and \<open>rule-based\<close> exactly when it is unix or uniy.
\<close>

theorem class_procedural_iff_glc:
  assumes "best_model_table dbm = Inr out" and "a \<in> set out"
    and "\<forall>r\<in>set dbm. fr_model r \<in> set model_names"
  shows "(a_best_model_class a = ''procedural'' \<longleftrightarrow> family_of (a_best_model a) = Some nll_glc)
       \<and> (a_best_model_class a = ''rule-based'' \<longleftrightarrow>
            family_of (a_best_model a) = Some nll_unix \<or> family_of (a_best_model a) = Some nll_uniy)"
proof -
  from table_row_origin [OF assms(1,2)] obtain r where
    r: "r \<in> set dbm" "a = mk_assignment (fr_subject r, fr_day r, fr_bic r, fr_model r)" by blast
  from r(1) assms(3) have "fr_model r \<in> set model_names" by blast
  from class_of_model_name [OF this] show ?thesis by (simp add: r(2))
qed

lemma distinct_drop_duplicates [simp]: "distinct (drop_duplicates xs)"
  by (induction xs rule: drop_duplicates.induct) auto

lemma collect_all_Inr:
  "\<forall>x\<in>set xs. \<exists>v. x = Inr v \<Longrightarrow> \<exists>vs. collect xs = Inr vs"
proof (induction xs)
  case Nil
  then show ?case by simp
next
  case (Cons x xs)
  then obtain v vs where "x = Inr v" "collect xs = Inr vs" by auto
  then show ?case by simp
qed

lemma finite_vals_total:
  "\<forall>b\<in>set bs. b \<noteq> NaN \<Longrightarrow> \<exists>vs. finite_vals bs = Some vs \<and> bs = map Num vs"
proof (induction bs rule: finite_vals.induct)
  case 1
  then show ?case by simp
next
  case (2 bs)
  then show ?case by simp
next
  case (3 x bs)
  then show ?case by auto
qed

lemma assign_best_model_total:
  assumes "x \<noteq> []" and "\<forall>r\<in>set x. fr_bic r \<noteq> NaN"
  shows "\<exists>ys. assign_best_model x = Inr ys"
proof -
  from assms(2) have "\<forall>b\<in>set (map fr_bic x). b \<noteq> NaN" by simp
  from finite_vals_total [OF this] obtain vs where
    vs: "finite_vals (map fr_bic x) = Some vs" "map fr_bic x = map Num vs" by blast
  from vs(2) assms(1) obtain v vs' where v: "vs = v # vs'" by (cases vs) auto
  define m where "m = fold min vs' v"
  have nm: "np_min (map fr_bic x) = Inr (Num m)"
    by (simp add: np_min_def vs(1) v m_def)
  have "m = Min (set vs)" using Min.set_eq_fold [of v vs'] by (simp add: m_def v)
  then have "m \<in> set vs" using v Min_in [of "set vs"] by simp
  then have "Num m \<in> set (map fr_bic x)" by (simp add: vs(2))
  then obtain r where r: "r \<in> set x" "fr_bic r = Num m" by auto
  then have "fr_model r \<in> set (np_unique (map fr_model (filter (\<lambda>r. num_eq (fr_bic r) (Num m)) x)))"
    by simp
  then have "np_unique (map fr_model (filter (\<lambda>r. num_eq (fr_bic r) (Num m)) x)) \<noteq> []"
    by (metis empty_iff empty_set)
  then obtain b rest where
    "np_unique (map fr_model (filter (\<lambda>r. num_eq (fr_bic r) (Num m)) x)) = b # rest"
    by (meson neq_Nil_conv)
  then show ?thesis
    by (simp add: assign_best_model_def Let_def nm mask_names del: num_eq_Num)
qed

text \<open>A table without rows makes line 314 raise.\<close>

lemma best_model_table_empty: "best_model_table [] = Inl KeyError"
  by (simp add: best_model_table_def groupby_def group_keys_def)

lemma best_model_table_total:
  assumes "dbm \<noteq> []" and "\<forall>r\<in>set dbm. fr_bic r \<noteq> NaN"
  shows "\<exists>out. best_model_table dbm = Inr out"
proof -
  have "\<forall>y\<in>set (map (\<lambda>(key, x). assign_best_model x) (groupby dbm)). \<exists>v. y = Inr v"
  proof
    fix y assume "y \<in> set (map (\<lambda>(key, x). assign_best_model x) (groupby dbm))"
    then obtain key where key: "key \<in> fr_key ` set dbm"
      "y = assign_best_model (filter (\<lambda>r. fr_key r = key) dbm)"
      by (auto simp: groupby_def)
    from key(1) have "filter (\<lambda>r. fr_key r = key) dbm \<noteq> []"
      by (auto simp: filter_empty_conv)
    moreover have "\<forall>r\<in>set (filter (\<lambda>r. fr_key r = key) dbm). fr_bic r \<noteq> NaN"
      using assms(2) by simp
    ultimately show "\<exists>v. y = Inr v" using assign_best_model_total key(2) by blast
  qed
  from collect_all_Inr [OF this] assms(1) show ?thesis
    by (auto simp: best_model_table_def)
qed

lemma one_row_per_group:
  assumes t: "best_model_table dbm = Inr out"
    and fd: "\<forall>r\<in>set dbm. \<forall>r'\<in>set dbm. fr_key r = fr_key r' \<and> fr_model r = fr_model r'
               \<longrightarrow> fr_bic r = fr_bic r'"
  shows "length (filter (\<lambda>a. (a_subject a, a_day a) = key) out)
           = (if key \<in> fr_key ` set dbm then 1 else 0)"
proof -
  from table_rows [OF t] obtain sel where
    o: "out = map mk_assignment (drop_duplicates sel)"
    and sel: "\<forall>row. row \<in> set sel \<longleftrightarrow>
                 (\<exists>r\<in>set dbm. \<exists>ys. assign_best_model (filter (\<lambda>r'. fr_key r' = fr_key r) dbm) = Inr ys
                     \<and> (r, fr_model r) \<in> set ys
                     \<and> row = (fr_subject r, fr_day r, fr_bic r, fr_model r))" by blast
  define Q where "Q = (\<lambda>row :: int \<times> int \<times> num \<times> string. (fst row, fst (snd row)) = key)"
  have f: "filter (\<lambda>a. (a_subject a, a_day a) = key) out
             = map mk_assignment (filter Q (drop_duplicates sel))"
    unfolding o filter_map Q_def
    by (rule arg_cong [where f = "map mk_assignment"], rule filter_cong) (auto simp: comp_def)
  have d: "distinct (filter Q (drop_duplicates sel))" by simp
  have len: "length (filter (\<lambda>a. (a_subject a, a_day a) = key) out)
               = card {row \<in> set sel. Q row}"
    using distinct_card [OF d] by (simp add: f)
  show ?thesis
  proof (cases "key \<in> fr_key ` set dbm")
    case False
    have "{row \<in> set sel. Q row} = {}"
    proof (rule ccontr)
      assume "{row \<in> set sel. Q row} \<noteq> {}"
      then obtain row where row: "row \<in> set sel" "Q row" by blast
      from sel row(1) obtain r where "r \<in> set dbm"
        "row = (fr_subject r, fr_day r, fr_bic r, fr_model r)" by blast
      with row(2) have "key \<in> fr_key ` set dbm" by (auto simp: Q_def fr_key_def image_iff)
      with False show False by simp
    qed
    with len False show ?thesis by simp
  next
    case True
    then obtain r1 where r1: "r1 \<in> set dbm" "fr_key r1 = key" by auto
    from table_groups [OF t] obtain gs where
      gs: "map (\<lambda>key. assign_best_model (filter (\<lambda>r. fr_key r = key) dbm)) (group_keys dbm) = map Inr gs"
      by blast
    have "\<exists>g. assign_best_model (filter (\<lambda>r. fr_key r = key) dbm) = Inr g"
    proof -
      from True have "key \<in> set (group_keys dbm)" by simp
      then obtain i where i: "i < length (group_keys dbm)" "group_keys dbm ! i = key"
        by (metis in_set_conv_nth)
      from gs have "length gs = length (group_keys dbm)" by (metis length_map)
      with i gs have "assign_best_model (filter (\<lambda>r. fr_key r = key) dbm) = Inr (gs ! i)"
        by (metis nth_map)
      then show ?thesis by blast
    qed
    then obtain ys where ys: "assign_best_model (filter (\<lambda>r. fr_key r = key) dbm) = Inr ys" by blast
    from assign_best_model_Inr [OF ys] obtain best m where
      y: "ys = map (\<lambda>r. (r, best)) (filter (\<lambda>r'. fr_key r' = key) dbm)"
      and at: "\<exists>r\<in>set (filter (\<lambda>r'. fr_key r' = key) dbm). fr_bic r = Num m \<and> fr_model r = best"
      by blast
    from at obtain r0 where r0: "r0 \<in> set dbm" "fr_key r0 = key" "fr_bic r0 = Num m"
      "fr_model r0 = best" by auto
    have "{row \<in> set sel. Q row} = {(fst key, snd key, Num m, best)}"
    proof (intro equalityI subsetI)
      fix row assume "row \<in> {row \<in> set sel. Q row}"
      then have row: "row \<in> set sel" "Q row" by auto
      from sel row(1) obtain r zs where r: "r \<in> set dbm"
        "assign_best_model (filter (\<lambda>r'. fr_key r' = fr_key r) dbm) = Inr zs"
        "(r, fr_model r) \<in> set zs"
        "row = (fr_subject r, fr_day r, fr_bic r, fr_model r)" by blast
      from row(2) r(4) have k: "fr_key r = key" by (simp add: Q_def fr_key_def)
      with r(2) ys have "zs = ys" by simp
      with r(3) y have b: "fr_model r = best" by auto
      with fd r(1) r0 k have "fr_bic r = Num m" by metis
      with r(4) b k show "row \<in> {(fst key, snd key, Num m, best)}"
        by (auto simp: fr_key_def)
    next
      fix row assume "row \<in> {(fst key, snd key, Num m, best)}"
      then have row: "row = (fr_subject r0, fr_day r0, fr_bic r0, fr_model r0)"
        using r0 by (auto simp: fr_key_def)
      have "(r0, fr_model r0) \<in> set ys" using r0 y by auto
      with ys r0 row have "row \<in> set sel" using sel by blast
      moreover have "Q row" using row r0(2) by (simp add: Q_def fr_key_def)
      ultimately show "row \<in> {row \<in> set sel. Q row}" by simp
    qed
    with len True show ?thesis by simp
  qed
qed

text \<open>
  C5, as the code has it. For a fit-result table that has at least one row, holds no NaN
  BIC and gives a model name one BIC only within a group, the selector returns a table
  that holds exactly one row for every (subject, day) key of the fit-result table and no
  row for any other key.
\<close>

theorem one_assignment_per_group:
  assumes "dbm \<noteq> []"
    and "\<forall>r\<in>set dbm. fr_bic r \<noteq> NaN"
    and "\<forall>r\<in>set dbm. \<forall>r'\<in>set dbm. fr_key r = fr_key r' \<and> fr_model r = fr_model r'
           \<longrightarrow> fr_bic r = fr_bic r'"
  shows "\<exists>out. best_model_table dbm = Inr out
           \<and> (\<forall>key. length (filter (\<lambda>a. (a_subject a, a_day a) = key) out)
                  = (if key \<in> fr_key ` set dbm then 1 else 0))"
proof -
  from best_model_table_total [OF assms(1,2)] obtain out where
    out: "best_model_table dbm = Inr out" by blast
  from one_row_per_group [OF out assms(3)] out show ?thesis by blast
qed

text \<open>
  C5, as stated, fails. The group of subject 1 and day 1 has two fit results named
  \<open>nll_glc_0\<close> with different BIC and gets two rows; in the second table the group of
  subject 2 has a fit result whose BIC is NaN, the selector raises and no group gets a row.
\<close>

theorem one_assignment_per_group_counterexample:
  "best_model_table twice_named_table = Inr [first_glc_row, second_glc_row]
   \<and> fr_key (twice_named_table ! 0) = (1, 1)
   \<and> (a_subject first_glc_row, a_day first_glc_row) = (1, 1)
   \<and> (a_subject second_glc_row, a_day second_glc_row) = (1, 1)
   \<and> first_glc_row \<noteq> second_glc_row
   \<and> fr_key (nan_table ! 0) = (1, 1)
   \<and> fr_key (nan_table ! 1) = (2, 1)
   \<and> best_model_table nan_table = Inl IndexError"
  by code_simp

lemma dbm_example_table:
  "best_model_table dbm_example = Inr [glc_assignment, unix_assignment]"
  by code_simp

lemma dbm_example_names_determine_bic:
  "\<forall>r\<in>set dbm_example. \<forall>r'\<in>set dbm_example. fr_key r = fr_key r' \<and> fr_model r = fr_model r'
     \<longrightarrow> fr_bic r = fr_bic r'"
  by (simp add: dbm_example_def fr_key_def)

text \<open>The theorem of C2 at the example table, for the row of subject 1.\<close>

theorem best_model_least_bic_first_name_witness:
  "best_model_table dbm_example = Inr [glc_assignment, unix_assignment]
   \<and> glc_assignment \<in> set [glc_assignment, unix_assignment]
   \<and> a_best_model glc_assignment = ''nll_glc_0''
   \<and> (\<exists>m. (\<forall>r\<in>set dbm_example. fr_key r = (a_subject glc_assignment, a_day glc_assignment)
               \<longrightarrow> (\<exists>b. fr_bic r = Num b \<and> m \<le> b))
          \<and> (\<exists>r\<in>set dbm_example. fr_key r = (a_subject glc_assignment, a_day glc_assignment)
                \<and> fr_bic r = Num m \<and> fr_model r = a_best_model glc_assignment)
          \<and> (\<forall>r\<in>set dbm_example. fr_key r = (a_subject glc_assignment, a_day glc_assignment)
                \<and> fr_bic r = Num m \<longrightarrow> a_best_model glc_assignment \<le> fr_model r)
          \<and> (\<exists>r\<in>set dbm_example. fr_key r = (a_subject glc_assignment, a_day glc_assignment)
                \<and> fr_model r = a_best_model glc_assignment \<and> fr_bic r = a_bic glc_assignment)
          \<and> ((\<forall>r\<in>set dbm_example. \<forall>r'\<in>set dbm_example.
                  fr_key r = fr_key r' \<and> fr_model r = fr_model r' \<longrightarrow> fr_bic r = fr_bic r')
                \<longrightarrow> a_bic glc_assignment = Num m))"
proof -
  have h2: "glc_assignment \<in> set [glc_assignment, unix_assignment]" by simp
  have nm: "a_best_model glc_assignment = ''nll_glc_0''" by (simp add: glc_assignment_def)
  from best_model_least_bic_first_name [OF dbm_example_table h2] dbm_example_table h2 nm
  show ?thesis by (intro conjI)
qed

text \<open>The theorem of C3 at the example table, for both rows.\<close>

theorem class_procedural_iff_glc_witness:
  "best_model_table dbm_example = Inr [glc_assignment, unix_assignment]
   \<and> list_all (\<lambda>r. fr_model r \<in> set model_names) dbm_example
   \<and> a_best_model_class glc_assignment = ''procedural''
   \<and> family_of (a_best_model glc_assignment) = Some nll_glc
   \<and> a_best_model_class unix_assignment = ''rule-based''
   \<and> family_of (a_best_model unix_assignment) = Some nll_unix"
proof -
  have h3: "list_all (\<lambda>r. fr_model r \<in> set model_names) dbm_example"
    by (simp add: dbm_example_def model_names_def)
  have c1: "a_best_model_class glc_assignment = ''procedural''"
    and c2: "a_best_model_class unix_assignment = ''rule-based''"
    by (simp_all add: glc_assignment_def unix_assignment_def)
  have g: "family_of (a_best_model glc_assignment) = Some nll_glc"
    using class_procedural_iff_glc [OF dbm_example_table _ h3 [unfolded list_all_iff],
        of glc_assignment] c1
    by simp
  have "family_of (a_best_model unix_assignment) = Some nll_unix
        \<or> family_of (a_best_model unix_assignment) = Some nll_uniy"
    using class_procedural_iff_glc [OF dbm_example_table _ h3 [unfolded list_all_iff],
        of unix_assignment] c2
    by simp
  then have u: "family_of (a_best_model unix_assignment) = Some nll_unix"
    by (simp add: unix_assignment_def family_of_names)
  from dbm_example_table h3 c1 g c2 u show ?thesis by (intro conjI)
qed

text \<open>The amended statement of C5 at the example table.\<close>

theorem one_assignment_per_group_witness:
  "dbm_example \<noteq> []
   \<and> list_all (\<lambda>r. fr_bic r \<noteq> NaN) dbm_example
   \<and> list_all (\<lambda>r. list_all (\<lambda>r'. fr_key r = fr_key r' \<and> fr_model r = fr_model r'
                                  \<longrightarrow> fr_bic r = fr_bic r') dbm_example) dbm_example
   \<and> (\<exists>out. best_model_table dbm_example = Inr out
         \<and> (\<forall>key. length (filter (\<lambda>a. (a_subject a, a_day a) = key) out)
                = (if key \<in> fr_key ` set dbm_example then 1 else 0)))"
proof -
  have h0: "dbm_example \<noteq> []" by (simp add: dbm_example_def)
  have h1: "list_all (\<lambda>r. fr_bic r \<noteq> NaN) dbm_example" by (simp add: dbm_example_def)
  have h2: "list_all (\<lambda>r. list_all (\<lambda>r'. fr_key r = fr_key r' \<and> fr_model r = fr_model r'
                                  \<longrightarrow> fr_bic r = fr_bic r') dbm_example) dbm_example"
    using dbm_example_names_determine_bic unfolding list_all_iff .
  from one_assignment_per_group
         [OF h0 h1 [unfolded list_all_iff] dbm_example_names_determine_bic] h0 h1 h2
  show ?thesis by (intro conjI)
qed

section \<open>Proofs: the training table and the input of the fit\<close>

lemma cumcount_nth:
  "i < length ks \<Longrightarrow> cumcount ks ! i = length (filter (\<lambda>key. key = ks ! i) (take i ks))"
  by (simp add: cumcount_def)

lemma length_cumcount [simp]: "length (cumcount ks) = length ks"
  by (simp add: cumcount_def)

lemma length_group_count [simp]: "length (group_count ks) = length ks"
  by (simp add: group_count_def)

lemma length_sort_values [simp]: "length (sort_values d) = length d"
  by (simp add: sort_values_def)

lemma set_sort_values [simp]: "set (sort_values d) = set d"
  by (simp add: sort_values_def)

lemma training_table_rows:
  assumes "training_table train_rec = Inr d"
  shows "\<exists>d1. set d1 = set (concat (map (\<lambda>df. map (\<lambda>r. (fs df, r)) (rows df)) train_rec))
            \<and> train_rec \<noteq> []
            \<and> length d = length d1
            \<and> (\<forall>i<length d.
                  t_subject (d ! i) = r_subject (snd (d1 ! i))
                \<and> t_f_name (d ! i) = fst (d1 ! i)
                \<and> t_trial (d ! i) = int (cumcount (map (\<lambda>(f, r). r_subject r) d1) ! i)
                \<and> t_block (d ! i) = t_trial (d ! i) div int block_size
                \<and> t_session_type (d ! i) = ''Training at home'')"
proof -
  from assms obtain d0 where d0: "pd_concat train_rec = Inr d0"
    by (auto simp: training_table_def split: sum.splits)
  then have ne: "train_rec \<noteq> []"
    and d0': "d0 = concat (map (\<lambda>df. map (\<lambda>r. (fs df, r)) (rows df)) train_rec)"
    by (auto simp: pd_concat_def split: if_splits)
  define d1 where "d1 = sort_values d0"
  have "set d1 = set d0" "length d1 = length d0" by (simp_all add: d1_def)
  moreover have "length d = length d1"
    using assms d0 by (auto simp: training_table_def Let_def d1_def)
  moreover have "\<forall>i<length d.
                  t_subject (d ! i) = r_subject (snd (d1 ! i))
                \<and> t_f_name (d ! i) = fst (d1 ! i)
                \<and> t_trial (d ! i) = int (cumcount (map (\<lambda>(f, r). r_subject r) d1) ! i)
                \<and> t_block (d ! i) = t_trial (d ! i) div int block_size
                \<and> t_session_type (d ! i) = ''Training at home''"
    using assms d0
    by (auto simp: training_table_def Let_def d1_def comp_def case_prod_unfold)
  ultimately show ?thesis using ne d0' by blast
qed

lemma trial_counts_subject_rows:
  assumes "training_table train_rec = Inr d" and "i < length d"
  shows "t_block (d ! i) = t_trial (d ! i) div int block_size
       \<and> t_trial (d ! i) = int (length (filter (\<lambda>r. t_subject r = t_subject (d ! i)) (take i d)))"
proof -
  from training_table_rows [OF assms(1)] obtain d1 where
    full: "set d1 = set (concat (map (\<lambda>df. map (\<lambda>r. (fs df, r)) (rows df)) train_rec))
            \<and> train_rec \<noteq> []
            \<and> length d = length d1
            \<and> (\<forall>i<length d.
                  t_subject (d ! i) = r_subject (snd (d1 ! i))
                \<and> t_f_name (d ! i) = fst (d1 ! i)
                \<and> t_trial (d ! i) = int (cumcount (map (\<lambda>(f, r). r_subject r) d1) ! i)
                \<and> t_block (d ! i) = t_trial (d ! i) div int block_size
                \<and> t_session_type (d ! i) = ''Training at home'')" ..
  then have len: "length d = length d1"
    and nth: "\<forall>j<length d.
                  t_subject (d ! j) = r_subject (snd (d1 ! j))
                \<and> t_trial (d ! j) = int (cumcount (map (\<lambda>(f, r). r_subject r) d1) ! j)
                \<and> t_block (d ! j) = t_trial (d ! j) div int block_size"
    by simp_all
  have subj: "map t_subject d = map (\<lambda>(f, r). r_subject r) d1"
    using len nth by (auto simp: list_eq_iff_nth_eq case_prod_unfold)
  have "cumcount (map t_subject d) ! i
          = length (filter (\<lambda>key. key = map t_subject d ! i) (take i (map t_subject d)))"
    using assms(2) by (simp add: cumcount_nth)
  also have "\<dots> = length (filter (\<lambda>r. t_subject r = t_subject (d ! i)) (take i d))"
    using assms(2) by (simp add: take_map filter_map comp_def)
  finally have "cumcount (map t_subject d) ! i
                  = length (filter (\<lambda>r. t_subject r = t_subject (d ! i)) (take i d))" .
  with nth assms(2) subj show ?thesis by simp
qed

lemma rank_dense_mono:
  assumes "dy \<le> dy'"
  shows "rank_dense sd s dy \<le> rank_dense sd s dy'"
proof -
  have "set (map snd (filter (\<lambda>(s', d'). s' = s \<and> d' < dy) sd))
          \<subseteq> set (map snd (filter (\<lambda>(s', d'). s' = s \<and> d' < dy') sd))"
    using assms by auto
  then have "card (set (map snd (filter (\<lambda>(s', d'). s' = s \<and> d' < dy) sd)))
          \<le> card (set (map snd (filter (\<lambda>(s', d'). s' = s \<and> d' < dy') sd)))"
    by (rule card_mono [rotated]) simp
  then show ?thesis
    by (simp add: rank_dense_def length_remdups_card_conv)
qed

lemma sorted_sort_values:
  "sorted (map (\<lambda>(f, r). (r_subject r, r_day r, r_trial r)) (sort_values d))"
  by (simp add: sort_values_def)

lemma training_table_days:
  assumes "training_table train_rec = Inr d"
  shows "\<exists>d1 :: (string \<times> raw_row) list. length d = length d1
            \<and> sorted (map (\<lambda>(f, r). (r_subject r, r_day r, r_trial r)) d1)
            \<and> (\<forall>i<length d.
                  t_subject (d ! i) = r_subject (snd (d1 ! i))
                \<and> t_day (d ! i)
                    = rank_dense (map (\<lambda>(f, r). (r_subject r, r_day r)) d1)
                        (r_subject (snd (d1 ! i))) (r_day (snd (d1 ! i))))"
proof -
  from assms obtain d0 where d0: "pd_concat train_rec = Inr d0"
    by (auto simp: training_table_def split: sum.splits)
  define d1 where "d1 = sort_values d0"
  have "length d = length d1"
    using assms d0 by (auto simp: training_table_def Let_def d1_def)
  moreover have "sorted (map (\<lambda>(f, r). (r_subject r, r_day r, r_trial r)) d1)"
    unfolding d1_def by (rule sorted_sort_values)
  moreover have "\<forall>i<length d.
                  t_subject (d ! i) = r_subject (snd (d1 ! i))
                \<and> t_day (d ! i)
                    = rank_dense (map (\<lambda>(f, r). (r_subject r, r_day r)) d1)
                        (r_subject (snd (d1 ! i))) (r_day (snd (d1 ! i)))"
    using assms d0
    by (auto simp: training_table_def Let_def d1_def comp_def case_prod_unfold)
  ultimately show ?thesis by blast
qed

lemma training_table_day_order:
  assumes "training_table train_rec = Inr d" and "j < i" and "i < length d"
    and "t_subject (d ! j) = t_subject (d ! i)"
  shows "t_day (d ! j) \<le> t_day (d ! i)"
proof -
  from training_table_days [OF assms(1)] obtain d1 :: "(string \<times> raw_row) list" where
    full: "length d = length d1
            \<and> sorted (map (\<lambda>(f, r). (r_subject r, r_day r, r_trial r)) d1)
            \<and> (\<forall>i<length d.
                  t_subject (d ! i) = r_subject (snd (d1 ! i))
                \<and> t_day (d ! i)
                    = rank_dense (map (\<lambda>(f, r). (r_subject r, r_day r)) d1)
                        (r_subject (snd (d1 ! i))) (r_day (snd (d1 ! i))))" ..
  then have len: "length d = length d1"
    and srt: "sorted (map (\<lambda>(f, r). (r_subject r, r_day r, r_trial r)) d1)" by simp_all
  from assms(2,3) have ji: "j < length d" by simp
  have "map (\<lambda>(f, r). (r_subject r, r_day r, r_trial r)) d1 ! j
          \<le> map (\<lambda>(f, r). (r_subject r, r_day r, r_trial r)) d1 ! i"
    using srt assms(2,3) len by (simp add: sorted_iff_nth_mono del: nth_map)
  then have le: "(r_subject (snd (d1 ! j)), r_day (snd (d1 ! j)), r_trial (snd (d1 ! j)))
          \<le> (r_subject (snd (d1 ! i)), r_day (snd (d1 ! i)), r_trial (snd (d1 ! i)))"
    using assms(3) ji len by (simp add: case_prod_unfold)
  from full ji assms(3,4) have "r_subject (snd (d1 ! j)) = r_subject (snd (d1 ! i))" by simp
  with le have "r_day (snd (d1 ! j)) \<le> r_day (snd (d1 ! i))"
    by (auto simp: less_eq_prod_def)
  from rank_dense_mono [OF this] full ji assms(3,4) show ?thesis by simp
qed

text \<open>
  C7, as the code has it. In the training table the block of every row is its trial number
  divided by \<open>block_size\<close>, where the trial number counts the earlier rows of the same
  subject over all of the subject's days; it does not start again with each day. The rows of a subject stand
  in the order of their days.
\<close>

theorem block_counts_subject_trials:
  assumes "training_table train_rec = Inr d" and "i < length d"
  shows "t_block (d ! i) = t_trial (d ! i) div int block_size
       \<and> t_trial (d ! i) = int (length (filter (\<lambda>r. t_subject r = t_subject (d ! i)) (take i d)))
       \<and> (\<forall>j<i. t_subject (d ! j) = t_subject (d ! i) \<longrightarrow> t_day (d ! j) \<le> t_day (d ! i))"
  using trial_counts_subject_rows [OF assms] training_table_day_order [OF assms(1) _ assms(2)]
  by blast

lemma two_day_training_table: "training_table two_day_files = Inr two_day_table"
  by code_simp

text \<open>
  C7, as stated, fails: the single trial of the second day is row 25 of the table, it is
  the first row of its (subject, day) group, and its block is 1, not 0.
\<close>

theorem block_of_second_day_counterexample:
  "training_table two_day_files = Inr two_day_table
   \<and> t_day (two_day_table ! 25) = 2
   \<and> within_day_index two_day_table 25 = 0
   \<and> t_block (two_day_table ! 25) = 1
   \<and> t_block (two_day_table ! 25) \<noteq> int (within_day_index two_day_table 25) div int block_size"
  by code_simp

text \<open>The amended statement of C7 at the same row.\<close>

theorem block_counts_subject_trials_witness:
  "training_table two_day_files = Inr two_day_table
   \<and> 25 < length two_day_table
   \<and> t_trial (two_day_table ! 25) = 25
   \<and> t_block (two_day_table ! 25) = t_trial (two_day_table ! 25) div int block_size
   \<and> t_trial (two_day_table ! 25)
       = int (length (filter (\<lambda>r. t_subject r = t_subject (two_day_table ! 25))
                        (take 25 two_day_table)))
   \<and> t_day (two_day_table ! 24) \<le> t_day (two_day_table ! 25)"
proof -
  have h2: "25 < length two_day_table" by code_simp
  have h3: "t_trial (two_day_table ! 25) = 25" by code_simp
  have h4: "t_subject (two_day_table ! 24) = t_subject (two_day_table ! 25)" by code_simp
  note th = block_counts_subject_trials [OF two_day_training_table h2]
  from th have b: "t_block (two_day_table ! 25) = t_trial (two_day_table ! 25) div int block_size"
    by simp
  from th have c: "t_trial (two_day_table ! 25)
       = int (length (filter (\<lambda>r. t_subject r = t_subject (two_day_table ! 25))
                        (take 25 two_day_table)))" by simp
  from th h4 have o: "t_day (two_day_table ! 24) \<le> t_day (two_day_table ! 25)" by simp
  from two_day_training_table h2 h3 b c o show ?thesis by (intro conjI)
qed

lemma truth_single: "truth bs = Inr True \<Longrightarrow> bs = [True]"
  by (auto simp: truth_def split: list.splits)

lemma route_train:
  assumes "route rec f = Inr rec'"
  shows "df_train_rec rec' = df_train_rec rec
       \<or> (df_train_rec rec' = df_train_rec rec @ [\<lparr>fs = fs f, rows = corrections (fs f) (rows f)\<rparr>]
          \<and> fs f \<notin> set day_exclusion_list
          \<and> (\<exists>dy. day_unique (corrections (fs f) (rows f)) = [dy] \<and> dy \<notin> {22, 23, 24}))"
proof (cases "fs f \<in> set day_exclusion_list")
  case True
  with assms show ?thesis by (simp add: route_def)
next
  case False
  define dv where "dv = day_unique (corrections (fs f) (rows f))"
  from assms False obtain b1 where b1: "truth (map (\<lambda>d. d \<notin> set [22, 23, 24]) dv) = Inr b1"
    by (auto simp: route_def Let_def dv_def split: sum.splits)
  show ?thesis
  proof (cases b1)
    case True
    with b1 have "map (\<lambda>d. d \<notin> set [22, 23, 24]) dv = [True]" by (simp add: truth_single)
    then obtain dy where dy: "dv = [dy]" "dy \<notin> {22, 23, 24}" by (cases dv) auto
    from assms False b1 True
    have "df_train_rec rec' = df_train_rec rec @ [\<lparr>fs = fs f, rows = corrections (fs f) (rows f)\<rparr>]"
      by (auto simp: route_def Let_def dv_def split: sum.splits if_splits)
    with False dy show ?thesis unfolding dv_def by blast
  next
    case False
    from assms \<open>fs f \<notin> set day_exclusion_list\<close> b1 False
    have "df_train_rec rec' = df_train_rec rec"
      by (auto simp: route_def Let_def dv_def split: sum.splits if_splits)
    then show ?thesis by simp
  qed
qed

lemma load_files_train:
  assumes "load_files rec files = Inr rec'" and "df \<in> set (df_train_rec rec')"
  shows "df \<in> set (df_train_rec rec)
       \<or> (\<exists>f\<in>set files. df = \<lparr>fs = fs f, rows = corrections (fs f) (rows f)\<rparr>
             \<and> fs f \<notin> set day_exclusion_list
             \<and> (\<exists>dy. day_unique (corrections (fs f) (rows f)) = [dy] \<and> dy \<notin> {22, 23, 24}))"
  using assms
proof (induction files arbitrary: rec)
  case Nil
  then show ?case by simp
next
  case (Cons f files)
  from Cons.prems(1) obtain rec1 where r1: "route rec f = Inr rec1"
    and l: "load_files rec1 files = Inr rec'"
    by (auto split: sum.splits)
  from Cons.IH [OF l Cons.prems(2)] route_train [OF r1] show ?case by auto
qed

lemma fit_rows_from_training_files:
  assumes "fit_input files lab_files = Inr (d, subs)" and "r \<in> set d"
  shows "\<exists>f\<in>set files. t_f_name r = fs f
            \<and> fs f \<notin> set day_exclusion_list
            \<and> (\<exists>dy. day_unique (corrections (fs f) (rows f)) = [dy] \<and> dy \<notin> {22, 23, 24})
            \<and> t_session_type r = ''Training at home''"
proof -
  from assms(1) obtain rec where rec: "load_files empty_recs files = Inr rec"
    and tt: "training_table (df_train_rec rec) = Inr d"
    by (auto simp: fit_input_def split: sum.splits)
  from training_table_rows [OF tt] obtain d1 where
    full: "set d1 = set (concat (map (\<lambda>df. map (\<lambda>r. (fs df, r)) (rows df)) (df_train_rec rec)))
            \<and> df_train_rec rec \<noteq> []
            \<and> length d = length d1
            \<and> (\<forall>i<length d.
                  t_subject (d ! i) = r_subject (snd (d1 ! i))
                \<and> t_f_name (d ! i) = fst (d1 ! i)
                \<and> t_trial (d ! i) = int (cumcount (map (\<lambda>(f, r). r_subject r) d1) ! i)
                \<and> t_block (d ! i) = t_trial (d ! i) div int block_size
                \<and> t_session_type (d ! i) = ''Training at home'')" ..
  from assms(2) obtain i where i: "i < length d" "r = d ! i" by (metis in_set_conv_nth)
  from full have len: "length d = length d1" by simp
  with i(1) have "d1 ! i \<in> set d1" by simp
  with full obtain df where df: "df \<in> set (df_train_rec rec)" "fst (d1 ! i) = fs df" by auto
  from load_files_train [OF rec df(1)] obtain f where f: "f \<in> set files"
    "df = \<lparr>fs = fs f, rows = corrections (fs f) (rows f)\<rparr>"
    "fs f \<notin> set day_exclusion_list"
    "\<exists>dy. day_unique (corrections (fs f) (rows f)) = [dy] \<and> dy \<notin> {22, 23, 24}"
    by (auto simp: empty_recs_def)
  from f(2) have "fs df = fs f" by simp
  with full i df(2) f show ?thesis by auto
qed

text \<open>
  C9. Every row of the table handed to the fit comes from an at-home file that is not on
  the exclusion list and whose day label, after the per-file corrections, is a single
  value other than 22, 23 and 24; the lab files contribute no row. The table is \<open>d\<close> as
  built before the exclusion steps, which act on \<open>d_all\<close> only, so it can hold a subject
  that these steps remove: the subject of the last row of the example, where the fit
  runs and subject 1 alone is left in \<open>d_all\<close>.
\<close>

theorem fit_on_training_files_before_exclusion:
  "(fit_input files lab_files = Inr (d, subs) \<and> r \<in> set d
      \<longrightarrow> (\<exists>f\<in>set files. t_f_name r = fs f
              \<and> fs f \<notin> set day_exclusion_list
              \<and> (\<exists>dy. day_unique (corrections (fs f) (rows f)) = [dy] \<and> dy \<notin> {22, 23, 24})
              \<and> t_session_type r = ''Training at home''))
   \<and> (\<exists>files' lab' d' subs' r'. fit_input files' lab' = Inr (d', subs')
          \<and> r' \<in> set d' \<and> t_subject r' \<notin> set subs')"
proof (intro conjI impI)
  assume "fit_input files lab_files = Inr (d, subs) \<and> r \<in> set d"
  then show "\<exists>f\<in>set files. t_f_name r = fs f
              \<and> fs f \<notin> set day_exclusion_list
              \<and> (\<exists>dy. day_unique (corrections (fs f) (rows f)) = [dy] \<and> dy \<notin> {22, 23, 24})
              \<and> t_session_type r = ''Training at home''"
    using fit_rows_from_training_files by blast
next
  have "fit_input study_files study_lab = Inr (study_table, [1])" by code_simp
  moreover have "last study_table \<in> set study_table" by code_simp
  moreover have "t_subject (last study_table) \<notin> set [1]" by code_simp
  ultimately show "\<exists>files' lab' d' subs' r'. fit_input files' lab' = Inr (d', subs')
          \<and> r' \<in> set d' \<and> t_subject r' \<notin> set subs'" by blast
qed

text \<open>The theorem of C9 at the example study, for the row of subject 2.\<close>

theorem fit_on_training_files_before_exclusion_witness:
  "fit_input study_files study_lab = Inr (study_table, [1])
   \<and> last study_table \<in> set study_table
   \<and> t_subject (last study_table) = 2
   \<and> (\<exists>f\<in>set study_files. t_f_name (last study_table) = fs f
         \<and> fs f \<notin> set day_exclusion_list
         \<and> (\<exists>dy. day_unique (corrections (fs f) (rows f)) = [dy] \<and> dy \<notin> {22, 23, 24})
         \<and> t_session_type (last study_table) = ''Training at home'')"
proof -
  have h1: "fit_input study_files study_lab = Inr (study_table, [1])" by code_simp
  have h2: "last study_table \<in> set study_table" by code_simp
  have h3: "t_subject (last study_table) = 2" by code_simp
  from fit_on_training_files_before_exclusion
         [of study_files study_lab study_table "[1]" "last study_table"] h1 h2
  have "\<exists>f\<in>set study_files. t_f_name (last study_table) = fs f
         \<and> fs f \<notin> set day_exclusion_list
         \<and> (\<exists>dy. day_unique (corrections (fs f) (rows f)) = [dy] \<and> dy \<notin> {22, 23, 24})
         \<and> t_session_type (last study_table) = ''Training at home''" by blast
  with h1 h2 h3 show ?thesis by (intro conjI)
qed
section \<open>Proofs: the resumed session\<close>

lemma session_setup_Inr:
  assumes "session_setup cfg existing = Inr m0"
  shows "trial m0 = -1 \<and> trial_data m0 = [] \<and> state_current m0 = state_init \<and> running m0
       \<and> (\<forall>name recorded. existing = [(name, Some recorded)]
             \<longrightarrow> csv m0 = Some recorded \<and> f_name m0 = name \<and> length recorded < n_total)
       \<and> (existing = [] \<longrightarrow> csv m0 = None)"
  using assms
  by (auto simp: session_setup_def resume_def Let_def split: sum.splits if_splits list.splits option.splits prod.splits)

lemma session_inv_start:
  assumes "session_setup cfg existing = Inr m0"
  shows "session_inv (csv m0) m0"
  using session_setup_Inr [OF assms] by (simp add: session_inv_def)

lemma iti_pass_inv:
  assumes "session_inv c m" and "state_current m = state_iti" and "iti_pass cfg m fr = Inr m'"
  shows "session_inv c m'"
  using assms
  by (auto simp: iti_pass_def session_inv_def Let_def split: if_splits sum.splits)

lemma stim_pass_inv:
  assumes "session_inv c m" and "state_current m = state_stim" and "stim_pass cfg m fr = Inr m'"
  shows "session_inv c m'"
  using assms
  by (auto simp: stim_pass_def stim_response_def session_inv_def Let_def
      split: if_splits sum.splits list.splits option.splits)

lemma save_trial_inv:
  assumes "session_inv c m" and "state_current m = state_feedback" and "save_trial cfg m = Inr m'"
  shows "session_inv c m'"
  using assms
  by (auto simp: save_trial_def session_inv_def Let_def
      split: if_splits sum.splits option.splits)

lemma feedback_pass_inv:
  assumes "session_inv c m" and "state_current m = state_feedback"
    and "feedback_pass cfg m fr = Inr m'"
  shows "session_inv c m'"
proof -
  have i: "session_inv c (m\<lparr>state_entry := False\<rparr>)"
    using assms(1) by (simp add: session_inv_def)
  have s: "state_current (m\<lparr>state_entry := False\<rparr>) = state_feedback"
    using assms(2) by simp
  from assms(3) have "m' = m\<lparr>state_entry := False\<rparr>
      \<or> save_trial cfg (m\<lparr>state_entry := False\<rparr>) = Inr m'"
    by (auto simp: feedback_pass_def Let_def split: if_splits sum.splits)
  then show ?thesis using i save_trial_inv [OF i s] by auto
qed

lemma step_inv:
  assumes "session_inv c m" and "step cfg m fr = Inr m'"
  shows "session_inv c m'"
proof (cases "getKeys [''escape''] fr \<noteq> []")
  case True
  with assms show ?thesis by (auto simp: step_def session_inv_def)
next
  case False
  show ?thesis
  proof (cases "state_current m")
    case state_init
    with assms False show ?thesis
      by (auto simp: step_def session_inv_def Let_def split: if_splits)
  next
    case state_finished
    with assms False show ?thesis
      by (auto simp: step_def session_inv_def)
  next
    case state_iti
    with assms False iti_pass_inv show ?thesis by (simp add: step_def)
  next
    case state_stim
    with assms False stim_pass_inv show ?thesis by (simp add: step_def)
  next
    case state_feedback
    with assms False feedback_pass_inv show ?thesis by (simp add: step_def)
  qed
qed

lemma run_inv:
  "session_inv c m \<Longrightarrow> run cfg m frames = Inr m' \<Longrightarrow> session_inv c m'"
proof (induction frames arbitrary: m)
  case Nil
  then show ?case by simp
next
  case (Cons fr frames)
  show ?case
  proof (cases "running m")
    case True
    with Cons.prems(2) obtain m1 where s: "step cfg m fr = Inr m1"
      and r: "run cfg m1 frames = Inr m'" by (auto split: sum.splits)
    from Cons.IH [OF step_inv [OF Cons.prems(1) s] r] show ?thesis .
  next
    case False
    with Cons.prems show ?thesis by simp
  qed
qed

lemma step_f_name:
  assumes "step cfg m fr = Inr m'"
  shows "f_name m' = f_name m"
  using assms
  by (auto simp: step_def iti_pass_def stim_pass_def stim_response_def feedback_pass_def
      save_trial_def Let_def
      split: if_splits sum.splits list.splits option.splits state.splits)

lemma run_f_name:
  "run cfg m frames = Inr m' \<Longrightarrow> f_name m' = f_name m"
proof (induction frames arbitrary: m)
  case Nil
  then show ?case by simp
next
  case (Cons fr frames)
  show ?case
  proof (cases "running m")
    case True
    with Cons.prems obtain m1 where s: "step cfg m fr = Inr m1"
      and r: "run cfg m1 frames = Inr m'" by (auto split: sum.splits)
    from Cons.IH [OF r] step_f_name [OF s] show ?thesis by simp
  next
    case False
    with Cons.prems show ?thesis by simp
  qed
qed

lemma resume_existing:
  assumes "session_setup cfg [(name, Some recorded)] = Inr m0"
  shows "resume cfg [(name, Some recorded)] = Inr (name, Some recorded, int (length recorded) - 1)"
  using assms
  by (auto simp: session_setup_def resume_def split: sum.splits if_splits)

text \<open>
  For any binding of \<open>day\<close>: the main loop starts with \<open>trial = -1\<close> whatever the data
  file holds, the value of line 196 being replaced at line 307; in every state the loop
  reaches the recorded rows are numbered from 0, and the data file holds its earlier
  content until a save completes and the recorded rows afterwards.
\<close>

lemma session_rows_and_file:
  assumes "session_setup cfg existing = Inr m0" and "run cfg m0 frames = Inr m"
  shows "trial m0 = -1
       \<and> (\<forall>name recorded. existing = [(name, Some recorded)]
             \<longrightarrow> resume cfg existing = Inr (name, Some recorded, int (length recorded) - 1)
               \<and> csv m0 = Some recorded \<and> f_name m0 = name)
       \<and> map c_trial (trial_data m) = map int [0..<length (trial_data m)]
       \<and> csv m = (if trial_data m = [] then csv m0 else Some (trial_data m))
       \<and> f_name m = f_name m0"
proof -
  from run_inv [OF session_inv_start [OF assms(1)] assms(2)]
  have "session_inv (csv m0) m" .
  with session_setup_Inr [OF assms(1)] run_f_name [OF assms(2)] resume_existing assms(1)
  show ?thesis
    by (auto simp: session_inv_def)
qed

text \<open>
  Without a binding of \<open>day\<close> the save raises before anything is written, so no pass of
  the loop records a row or touches the data file.
\<close>

lemma save_without_day:
  "day cfg = None \<Longrightarrow> save_trial cfg m = Inl NameError"
  by (simp add: save_trial_def)

lemma step_without_day:
  assumes "day cfg = None" and "step cfg m fr = Inr m'"
  shows "trial_data m' = trial_data m \<and> csv m' = csv m"
  using assms
  by (auto simp: step_def iti_pass_def stim_pass_def stim_response_def feedback_pass_def
      save_trial_def Let_def
      split: if_splits sum.splits list.splits option.splits state.splits)

lemma run_without_day:
  "day cfg = None \<Longrightarrow> run cfg m frames = Inr m'
     \<Longrightarrow> trial_data m' = trial_data m \<and> csv m' = csv m"
proof (induction frames arbitrary: m)
  case Nil
  then show ?case by simp
next
  case (Cons fr frames)
  show ?case
  proof (cases "running m")
    case True
    with Cons.prems(2) obtain m1 where s: "step cfg m fr = Inr m1"
      and r: "run cfg m1 frames = Inr m'" by (auto split: sum.splits)
    from Cons.IH [OF Cons.prems(1) r] step_without_day [OF Cons.prems(1) s]
    show ?thesis by simp
  next
    case False
    with Cons.prems show ?thesis by simp
  qed
qed

text \<open>
  C10 holds in its first half and fails in its second. In the resumed session the loop
  starts with \<open>trial = -1\<close> although the file holds two rows, and the first trial is
  trial 0. When the feedback of that trial ends, the save reads \<open>day\<close> and raises
  NameError: the pass yields no state, the run ends with the error, and the file still
  holds the two rows recorded before; nothing is written over them.
\<close>

theorem resumed_session_save_raises:
  "day script_config = None
   \<and> session_setup script_config interrupted_file = Inr resumed_start
   \<and> resume script_config interrupted_file
       = Inr (''sub_0123456789ab_date_20260105_data.csv'',
              Some [recorded_row 0, recorded_row 1], 1)
   \<and> trial resumed_start = -1
   \<and> run script_config resumed_start response_frames = Inr resumed_feedback
   \<and> trial resumed_feedback = 0
   \<and> trial_data resumed_feedback = []
   \<and> csv resumed_feedback = Some [recorded_row 0, recorded_row 1]
   \<and> step script_config resumed_feedback save_frame = Inl NameError
   \<and> run script_config resumed_start (response_frames @ [save_frame]) = Inl NameError"
  by code_simp

section \<open>Proofs: the fitting engine\<close>

text \<open>
  The number handed to \<open>fit_dbm\<close> as \<open>n\<close> is \<open>block_size\<close>, the same for every group
  whatever the number of its trials.
\<close>

lemma sample_size_argument: "n = 25"
  by (simp add: n_def block_size_def)

lemma upt_six: "[0..<6] = [0, 1, 2, 3, 4, 5]"
  by (simp add: upt_rec)

lemma fit_dbm_call_site:
  assumes "x \<noteq> []"
  shows "fit_dbm minimize x models side k n model_names =
     Inr [\<lparr>fit_model = ''nll_unix_0'', fit_family = nll_unix, fit_side = 0, fit_k = 2,
            fit_optimum = minimize nll_unix 0 x\<rparr>,
          \<lparr>fit_model = ''nll_unix_1'', fit_family = nll_unix, fit_side = 1, fit_k = 2,
            fit_optimum = minimize nll_unix 1 x\<rparr>,
          \<lparr>fit_model = ''nll_uniy_0'', fit_family = nll_uniy, fit_side = 0, fit_k = 2,
            fit_optimum = minimize nll_uniy 0 x\<rparr>,
          \<lparr>fit_model = ''nll_uniy_1'', fit_family = nll_uniy, fit_side = 1, fit_k = 2,
            fit_optimum = minimize nll_uniy 1 x\<rparr>,
          \<lparr>fit_model = ''nll_glc_0'', fit_family = nll_glc, fit_side = 0, fit_k = 3,
            fit_optimum = minimize nll_glc 0 x\<rparr>,
          \<lparr>fit_model = ''nll_glc_1'', fit_family = nll_glc, fit_side = 1, fit_k = 3,
            fit_optimum = minimize nll_glc 1 x\<rparr>]"
  using assms
  by (simp add: fit_dbm_def fit_one_def models_def side_def k_def model_names_def upt_six)

text \<open>
  C4. With the lists of the call site, the engine returns for every group with at least
  one trial exactly six Fit Results, one for each pair of a family among unix, uniy, glc
  and a side among 0, 1, and the parameter count of each is the one of its family: 2 for
  unix, 2 for uniy, 3 for glc. The entries of \<open>side\<close> and \<open>k\<close> beyond the sixth are
  never read.
\<close>

theorem six_fit_results_per_group:
  assumes "x \<noteq> []"
  shows "\<exists>rs. fit_dbm minimize x models side k n model_names = Inr rs
           \<and> length rs = 6
           \<and> map (\<lambda>r. (fit_family r, fit_side r)) rs
               = [(nll_unix, 0), (nll_unix, 1), (nll_uniy, 0), (nll_uniy, 1),
                  (nll_glc, 0), (nll_glc, 1)]
           \<and> map fit_model rs = model_names
           \<and> list_all (\<lambda>r. fit_k r = family_k (fit_family r)) rs"
  unfolding fit_dbm_call_site [OF assms] by (simp add: model_names_def)

text \<open>The theorem of C4 at a group of one trial.\<close>

theorem six_fit_results_per_group_witness:
  "[0 :: nat] \<noteq> []
   \<and> (\<exists>rs. fit_dbm no_optimizer [0 :: nat] models side k n model_names = Inr rs
         \<and> length rs = 6
         \<and> map (\<lambda>r. (fit_family r, fit_side r)) rs
             = [(nll_unix, 0), (nll_unix, 1), (nll_uniy, 0), (nll_uniy, 1),
                (nll_glc, 0), (nll_glc, 1)]
         \<and> map fit_model rs = model_names
         \<and> list_all (\<lambda>r. fit_k r = family_k (fit_family r)) rs)"
proof -
  have h: "[0 :: nat] \<noteq> []" by simp
  from six_fit_results_per_group [OF h, of no_optimizer] h show ?thesis by (intro conjI)
qed

text \<open>
  C8. For a positive noise scale, every model, side and stimulus, the response
  probability exists and lies between \<open>eps\<close> and \<open>1 - eps\<close>, hence strictly between 0
  and 1, whatever the distribution function returns; \<open>eps\<close> is any bound with
  \<open>0 < eps \<le> 1/2\<close>.
\<close>

theorem response_probability_strictly_inside:
  assumes "0 < eps" and "eps \<le> 1 / 2" and "0 < noise_scale mdl"
  shows "\<exists>p. response_probability Phi eps mdl sd pt = Some p
           \<and> eps \<le> p \<and> p \<le> 1 - eps \<and> 0 < p \<and> p < 1"
  using assms by (auto simp: response_probability_def clamp_def max_def min_def)

text \<open>
  The theorem of C8 where the distribution function returns exactly 0: the probability
  is the lower bound.
\<close>

theorem response_probability_strictly_inside_witness:
  "(0 :: real) < 1 / 1000 \<and> (1 :: real) / 1000 \<le> 1 / 2 \<and> 0 < noise_scale (Unix 0 1)
   \<and> response_probability saturated_cdf (1 / 1000) (Unix 0 1) 0 (3, 0) = Some (1 / 1000)
   \<and> (\<exists>p. response_probability saturated_cdf (1 / 1000) (Unix 0 1) 0 (3, 0) = Some p
         \<and> 1 / 1000 \<le> p \<and> p \<le> 1 - 1 / 1000 \<and> 0 < p \<and> p < 1)"
proof -
  have h1: "(0 :: real) < 1 / 1000" by simp
  have h2: "(1 :: real) / 1000 \<le> 1 / 2" by simp
  have h3: "0 < noise_scale (Unix 0 1)" by simp
  have v: "response_probability saturated_cdf (1 / 1000) (Unix 0 1) 0 (3, 0) = Some (1 / 1000)"
    by (simp add: response_probability_def clamp_def saturated_cdf_def side_sign_def)
  from response_probability_strictly_inside [OF h1 h2 h3, of saturated_cdf 0 "(3, 0)"] h1 h2 h3 v
  show ?thesis by (intro conjI)
qed

end
